theory Spec2Isabelle
  imports Main "HOL-Library.Sublist" "HOL-Library.AList"
begin

section \<open>Text\<close>

text \<open>
  A Python \<open>str\<close> is modelled as the list of its code points, within the range 0..255
  that \<^typ>\<open>char\<close> offers. \<open>isspace\<close>, \<open>strip\<close> and \<open>lower\<close> are Python's
  \<open>str.isspace\<close>, \<open>str.strip()\<close> and \<open>str.lower()\<close> on that range.
\<close>

definition isspace :: "char \<Rightarrow> bool" where
  "isspace c = (c \<in> set [CHR 0x09, CHR 0x0A, CHR 0x0B, CHR 0x0C, CHR 0x0D,
                          CHR 0x1C, CHR 0x1D, CHR 0x1E, CHR 0x1F, CHR 0x20,
                          CHR 0x85, CHR 0xA0])"

definition strip :: "string \<Rightarrow> string" where
  "strip s = rev (dropWhile isspace (rev (dropWhile isspace s)))"

definition upper_table :: string where
  "upper_table = ''ABCDEFGHIJKLMNOPQRSTUVWXYZ'' @
     [CHR 0xC0, CHR 0xC1, CHR 0xC2, CHR 0xC3, CHR 0xC4, CHR 0xC5, CHR 0xC6, CHR 0xC7,
      CHR 0xC8, CHR 0xC9, CHR 0xCA, CHR 0xCB, CHR 0xCC, CHR 0xCD, CHR 0xCE, CHR 0xCF,
      CHR 0xD0, CHR 0xD1, CHR 0xD2, CHR 0xD3, CHR 0xD4, CHR 0xD5, CHR 0xD6,
      CHR 0xD8, CHR 0xD9, CHR 0xDA, CHR 0xDB, CHR 0xDC, CHR 0xDD, CHR 0xDE]"

definition lower_table :: string where
  "lower_table = ''abcdefghijklmnopqrstuvwxyz'' @
     [CHR 0xE0, CHR 0xE1, CHR 0xE2, CHR 0xE3, CHR 0xE4, CHR 0xE5, CHR 0xE6, CHR 0xE7,
      CHR 0xE8, CHR 0xE9, CHR 0xEA, CHR 0xEB, CHR 0xEC, CHR 0xED, CHR 0xEE, CHR 0xEF,
      CHR 0xF0, CHR 0xF1, CHR 0xF2, CHR 0xF3, CHR 0xF4, CHR 0xF5, CHR 0xF6,
      CHR 0xF8, CHR 0xF9, CHR 0xFA, CHR 0xFB, CHR 0xFC, CHR 0xFD, CHR 0xFE]"

definition lower_char :: "char \<Rightarrow> char" where
  "lower_char c = (case map_of (zip upper_table lower_table) c of Some l \<Rightarrow> l | None \<Rightarrow> c)"

definition lower :: "string \<Rightarrow> string" where
  "lower s = map lower_char s"

fun startswith :: "string \<Rightarrow> string \<Rightarrow> bool" where
  "startswith s [] = True"
| "startswith [] (p # ps) = False"
| "startswith (c # cs) (p # ps) = (c = p \<and> startswith cs ps)"

text \<open>\<open>str.startswith\<close> with a tuple of prefixes.\<close>

definition startswith_any :: "string \<Rightarrow> string list \<Rightarrow> bool" where
  "startswith_any s ps = list_ex (startswith s) ps"

text \<open>
  \<open>file.readlines()\<close>: the text cut after every line feed, the line feed kept; a last
  line without one is kept as it is.
\<close>

fun readlines :: "string \<Rightarrow> string list" where
  "readlines [] = []"
| "readlines (c # cs) =
     (if c = CHR 0x0A then [c] # readlines cs
      else (case readlines cs of [] \<Rightarrow> [ [c] ] | l # ls \<Rightarrow> (c # l) # ls))"

section \<open>Tagged spans of a response\<close>

text \<open>
  \<open>re.search(r"<tag>(.*?)</tag>", result, re.DOTALL)\<close>, group 1. The search tries
  the start positions from the left; at a position where the opening tag stands, the lazy
  group grows one character at a time (any character, with \<open>DOTALL\<close>) until the closing
  tag stands behind it. \<open>None\<close> is Python's \<open>None\<close> for no match.
\<close>

fun lazy_group :: "string \<Rightarrow> string \<Rightarrow> string option" where
  "lazy_group close [] = (if close = [] then Some [] else None)"
| "lazy_group close (c # cs) =
     (if startswith (c # cs) close then Some []
      else map_option ((#) c) (lazy_group close cs))"

definition match_at :: "string \<Rightarrow> string \<Rightarrow> string \<Rightarrow> string option" where
  "match_at opn close s =
     (if startswith s opn then lazy_group close (drop (length opn) s) else None)"

fun re_search :: "string \<Rightarrow> string \<Rightarrow> string \<Rightarrow> string option" where
  "re_search opn close [] = match_at opn close []"
| "re_search opn close (c # cs) =
     (case match_at opn close (c # cs) of
        Some g \<Rightarrow> Some g
      | None \<Rightarrow> re_search opn close cs)"

section \<open>The world: files and effects\<close>

datatype neural_model = TFModel string | OpenAIModel

type_synonym message = "(string \<times> string) list"

datatype event =
    OpenRead string
  | OpenWrite string
  | Chat neural_model "message list"

datatype error =
    ValueError string
  | FileNotFoundError string
  | IsADirectoryError string
  | PermissionError string
  | IndexError
  | KeyError string
  | TomlDecodeError
  | BackendError string

text \<open>
  \<open>files\<close> maps the path of a regular file to the text a read in text mode returns;
  \<open>dirs\<close> holds the paths of the directories; \<open>write_errors\<close> gives, for a path
  that the system refuses to open for writing (its parent directory is missing, the
  permissions forbid it, ...), the exception that \<open>open\<close> raises; \<open>log\<close> records, in
  order, the files opened and the calls made to the backend. Output to the terminal is not
  modelled.
\<close>

record world =
  files :: "string \<rightharpoonup> string"
  dirs :: "string set"
  write_errors :: "string \<rightharpoonup> error"
  log :: "event list"

definition isfile :: "world \<Rightarrow> string \<Rightarrow> bool" where
  "isfile w p = (files w p \<noteq> None)"

definition path_exists :: "world \<Rightarrow> string \<Rightarrow> bool" where
  "path_exists w p = (isfile w p \<or> p \<in> dirs w)"

definition open_read :: "world \<Rightarrow> string \<Rightarrow> error + (string \<times> world)" where
  "open_read w p =
     (case files w p of
        Some text \<Rightarrow> Inr (text, w\<lparr>log := log w @ [OpenRead p]\<rparr>)
      | None \<Rightarrow> Inl (if p \<in> dirs w then IsADirectoryError p else FileNotFoundError p))"

text \<open>
  \<open>open(p, "w")\<close> raises for the empty path, for a directory, and wherever the system
  refuses the path; otherwise it creates the file or truncates it at once. The text
  written through the handle is buffered and reaches the file, from offset 0, when the
  handle is closed.
\<close>

definition open_write :: "world \<Rightarrow> string \<Rightarrow> error + world" where
  "open_write w p =
     (if p = [] then Inl (FileNotFoundError p)
      else if p \<in> dirs w then Inl (IsADirectoryError p)
      else (case write_errors w p of
              Some e \<Rightarrow> Inl e
            | None \<Rightarrow>
                Inr (w\<lparr>files := (files w)(p \<mapsto> []), log := log w @ [OpenWrite p]\<rparr>)))"

definition close_write :: "world \<Rightarrow> string \<Rightarrow> string \<Rightarrow> world" where
  "close_write w p buf =
     w\<lparr>files := (files w)(p \<mapsto> buf @ drop (length buf)
                                      (case files w p of Some old \<Rightarrow> old | None \<Rightarrow> []))\<rparr>"

text \<open>
  The collaborators the module calls and does not define: the TOML parser with the
  lookup of the key \<open>chat\<close>, \<open>json.dump\<close> with \<open>indent=4\<close>, and the \<open>chat\<close> method
  of a constructed backend.
\<close>

record env =
  toml_chat :: "string \<Rightarrow> error + message list"
  json_dump :: "message list \<Rightarrow> string"
  chat :: "neural_model \<Rightarrow> message list \<Rightarrow> error + string"

section \<open>Backend selection\<close>

text \<open>
  Lines 106-116 (and 208-218). \<open>if model:\<close> is false for \<open>None\<close> and for the empty
  string. Constructing a backend is taken to succeed.
\<close>

definition select_model :: "world \<Rightarrow> string option \<Rightarrow> error + neural_model option" where
  "select_model w model =
     (case model of
        None \<Rightarrow> Inr None
      | Some m \<Rightarrow>
          if m = [] then Inr None
          else if path_exists w m then Inr (Some (TFModel m))
          else if lower m = ''openai'' then Inr (Some OpenAIModel)
          else Inl (ValueError (m @ '' not available'')))"

section \<open>The chat template\<close>

text \<open>\<open>chat_template[-1]["content"]\<close>, read, assigned and extended with \<open>+=\<close>.\<close>

definition last_content :: "message list \<Rightarrow> error + string" where
  "last_content tmpl =
     (if tmpl = [] then Inl IndexError
      else (case map_of (last tmpl) ''content'' of
              None \<Rightarrow> Inl (KeyError ''content'')
            | Some c \<Rightarrow> Inr c))"

definition set_last_content :: "message list \<Rightarrow> string \<Rightarrow> error + message list" where
  "set_last_content tmpl c =
     (if tmpl = [] then Inl IndexError
      else Inr (butlast tmpl @ [AList.update ''content'' c (last tmpl)]))"

definition add_last_content :: "message list \<Rightarrow> string \<Rightarrow> error + message list" where
  "add_last_content tmpl s =
     (case last_content tmpl of
        Inl e \<Rightarrow> Inl e
      | Inr c \<Rightarrow> set_last_content tmpl (c @ s))"

section \<open>Translation\<close>

record tunit =
  fsource :: string
  csource :: string
  finterface :: string
  cdraft :: string
  promptfile :: string

text \<open>Lines 136-148: the loop over the lines of the source file.\<close>

fun source_loop :: "string list \<Rightarrow> string list \<Rightarrow> string list" where
  "source_loop [] source_code = source_code"
| "source_loop (line # rest) source_code =
     (let is_comment =
            (startswith_any (lower (strip line)) [''c'', ''!!'', ''!''] \<and>
             \<not> startswith (lower (strip line)) ''complex'')
      in source_loop rest (if \<not> is_comment then source_code @ [line] else source_code))"

text \<open>
  A step of the unit's body returns the template and the world it leaves behind; when
  it raises, \<open>Inl\<close> carries the exception with the template and the world at that moment.
\<close>

type_synonym step = "(error \<times> message list \<times> world) + (message list \<times> world)"

text \<open>Lines 135-153.\<close>

definition inject_source :: "message list \<Rightarrow> tunit \<Rightarrow> world \<Rightarrow> step" where
  "inject_source tmpl u w =
     (case open_read w (fsource u) of
        Inl e \<Rightarrow> Inl (e, tmpl, w)
      | Inr (text, w1) \<Rightarrow>
          (let source_code = source_loop (readlines text) [] in
           if source_code \<noteq> [] then
             (case add_last_content tmpl
                     (''\<newline><source>\<newline>'' @ concat source_code @ ''</source>'') of
                Inl e \<Rightarrow> Inl (e, tmpl, w1)
              | Inr tmpl1 \<Rightarrow> Inr (tmpl1, w1))
           else Inr (tmpl, w1)))"

text \<open>Lines 155-165.\<close>

definition inject_draft :: "message list \<Rightarrow> tunit \<Rightarrow> world \<Rightarrow> step" where
  "inject_draft tmpl u w =
     (if isfile w (cdraft u) then
        (case open_read w (cdraft u) of
           Inl e \<Rightarrow> Inl (e, tmpl, w)
         | Inr (text, w1) \<Rightarrow>
             (let draft_code = readlines text in
              if draft_code \<noteq> [] then
                (case add_last_content tmpl
                        (''\<newline>\<newline><draft>\<newline>'' @ concat draft_code @ ''</draft>'') of
                   Inl e \<Rightarrow> Inl (e, tmpl, w1)
                 | Inr tmpl1 \<Rightarrow> Inr (tmpl1, w1))
              else Inr (tmpl, w1)))
      else Inr (tmpl, w))"

text \<open>Lines 167-174.\<close>

definition save_prompt :: "env \<Rightarrow> bool \<Rightarrow> message list \<Rightarrow> tunit \<Rightarrow> world \<Rightarrow> error \<times> world + world" where
  "save_prompt E save_prompts tmpl u w =
     (if save_prompts then
        (case open_write w (promptfile u) of
           Inl e \<Rightarrow> Inl (e, w)
         | Inr w1 \<Rightarrow> Inr (close_write w1 (promptfile u) (json_dump E tmpl)))
      else Inr w)"

text \<open>
  Lines 179-194. Both files are opened before the response is searched; leaving the
  \<open>with\<close> statement closes \<open>fdest\<close> first and \<open>cdest\<close> second.
\<close>

definition primary_text :: "string \<Rightarrow> string" where
  "primary_text result =
     (case re_search ''<csource>'' ''</csource>'' result of
        Some g \<Rightarrow> g
      | None \<Rightarrow> result)"

definition secondary_text :: "string \<Rightarrow> string option" where
  "secondary_text result = re_search ''<fsource>'' ''</fsource>'' result"

definition write_artifacts :: "string \<Rightarrow> tunit \<Rightarrow> world \<Rightarrow> error \<times> world + world" where
  "write_artifacts result u w =
     (case open_write w (csource u) of
        Inl e \<Rightarrow> Inl (e, w)
      | Inr w1 \<Rightarrow>
          (case open_write w1 (finterface u) of
             Inl e \<Rightarrow> Inl (e, w1)
           | Inr w2 \<Rightarrow>
               (let cbuf = primary_text result;
                    fbuf = (case secondary_text result of Some g \<Rightarrow> g | None \<Rightarrow> [])
                in Inr (close_write (close_write w2 (finterface u) fbuf) (csource u) cbuf))))"

text \<open>Lines 176-194.\<close>

definition generate :: "env \<Rightarrow> neural_model option \<Rightarrow> message list \<Rightarrow> tunit \<Rightarrow> world \<Rightarrow> error \<times> world + world" where
  "generate E neural_model tmpl u w =
     (case neural_model of
        None \<Rightarrow> Inr w
      | Some nm \<Rightarrow>
          (let w1 = w\<lparr>log := log w @ [Chat nm tmpl]\<rparr> in
           case chat E nm tmpl of
             Inl e \<Rightarrow> Inl (e, w1)
           | Inr result \<Rightarrow> write_artifacts result u w1))"

text \<open>Lines 135-165: the prompt of the unit, built in the last message of the template.\<close>

definition build_prompt :: "message list \<Rightarrow> tunit \<Rightarrow> world \<Rightarrow> step" where
  "build_prompt tmpl u w =
     (case inject_source tmpl u w of
        Inl x \<Rightarrow> Inl x
      | Inr (tmpl1, w1) \<Rightarrow> inject_draft tmpl1 u w1)"

text \<open>Lines 132-199: the body of the loop, for one unit.\<close>

definition translate_unit :: "env \<Rightarrow> neural_model option \<Rightarrow> bool \<Rightarrow> message list \<Rightarrow> tunit \<Rightarrow> world \<Rightarrow> step" where
  "translate_unit E neural_model save_prompts tmpl u w =
     (if \<not> isfile w (csource u) \<or> save_prompts then
        (case last_content tmpl of
           Inl e \<Rightarrow> Inl (e, tmpl, w)
         | Inr cached_prompt \<Rightarrow>
        (case build_prompt tmpl u w of
           Inl x \<Rightarrow> Inl x
         | Inr (tmpl2, w2) \<Rightarrow>
        (case save_prompt E save_prompts tmpl2 u w2 of
           Inl (e, w3) \<Rightarrow> Inl (e, tmpl2, w3)
         | Inr w3 \<Rightarrow>
        (case generate E neural_model tmpl2 u w3 of
           Inl (e, w4) \<Rightarrow> Inl (e, tmpl2, w4)
         | Inr w4 \<Rightarrow>
        (case set_last_content tmpl2 cached_prompt of
           Inl e \<Rightarrow> Inl (e, tmpl2, w4)
         | Inr tmpl3 \<Rightarrow> Inr (tmpl3, w4))))))
      else Inr (tmpl, w))"

text \<open>Lines 125-199: the loop over the units; an exception ends it.\<close>

fun translate_units :: "env \<Rightarrow> neural_model option \<Rightarrow> bool \<Rightarrow> message list \<Rightarrow> tunit list \<Rightarrow> world \<Rightarrow> step" where
  "translate_units E neural_model save_prompts tmpl [] w = Inr (tmpl, w)"
| "translate_units E neural_model save_prompts tmpl (u # us) w =
     (case translate_unit E neural_model save_prompts tmpl u w of
        Inl x \<Rightarrow> Inl x
      | Inr (tmpl1, w1) \<Rightarrow> translate_units E neural_model save_prompts tmpl1 us w1)"

text \<open>
  \<open>zip(mapping[0], mapping[1], mapping[2], mapping[3], mapping[4])\<close>: an index past
  the end of \<open>mapping\<close> raises, and \<open>zip\<close> stops with the shortest list.
\<close>

definition units_of :: "string list list \<Rightarrow> error + tunit list" where
  "units_of mapping =
     (if length mapping < 5 then Inl IndexError
      else Inr (map (\<lambda>(a, b, c, d, e).
                       \<lparr>fsource = a, csource = b, finterface = c, cdraft = d, promptfile = e\<rparr>)
                  (zip (mapping ! 0) (zip (mapping ! 1) (zip (mapping ! 2)
                     (zip (mapping ! 3) (mapping ! 4)))))))"

text \<open>Lines 99-199.\<close>

definition prompt_translate ::
    "env \<Rightarrow> string list list \<Rightarrow> string \<Rightarrow> string option \<Rightarrow> bool \<Rightarrow> world \<Rightarrow> error \<times> world + world" where
  "prompt_translate E mapping seed_prompt model save_prompts w =
     (case select_model w model of
        Inl e \<Rightarrow> Inl (e, w)
      | Inr neural_model \<Rightarrow>
     (case open_read w seed_prompt of
        Inl e \<Rightarrow> Inl (e, w)
      | Inr (text, w1) \<Rightarrow>
     (case toml_chat E text of
        Inl e \<Rightarrow> Inl (e, w1)
      | Inr chat_template \<Rightarrow>
     (case units_of mapping of
        Inl e \<Rightarrow> Inl (e, w1)
      | Inr units \<Rightarrow>
     (case translate_units E neural_model save_prompts chat_template units w1 of
        Inl (e, tmpl, w2) \<Rightarrow> Inl (e, w2)
      | Inr (tmpl, w2) \<Rightarrow> Inr w2)))))"

section \<open>Inspection\<close>

text \<open>Lines 225-239.\<close>

definition preamble :: string where
  "preamble =
     ''I will give you source code from a set of files that\<newline>'' @
     ''belong to a scientific computing codebase. I want you\<newline>'' @
     ''to understand the source code and answer a query that\<newline>'' @
     ''follows. Source code for each will be separated using\<newline>'' @
     ''elements <filename> ... </filename>. Additional\<newline>'' @
     ''information related to the project structure may also be\<newline>'' @
     ''provided within <index> ... </index>. This information will\<newline>'' @
     ''contain an index of subroutines, functions, and modules contained\<newline>'' @
     ''in each file. Note that you will find subroutines and functions\<newline>'' @
     ''repeat along nodes in the directory tree. This maybe due to a directory-based\<newline>'' @
     ''inheritance design implemented by the project. If the index element is not\<newline>'' @
     ''present, then you may ignore it. The query prompt will be provided at then end\<newline>'' @
     ''using elements <query> ... </query>.\<newline>\<newline>''"

text \<open>Lines 241-251: the loop over the files; \<open>fsrc\<close> is the loop's \<open>fsource\<close>.\<close>

fun inspect_loop :: "string list \<Rightarrow> message list \<Rightarrow> world \<Rightarrow> step" where
  "inspect_loop [] tmpl w = Inr (tmpl, w)"
| "inspect_loop (fsrc # rest) tmpl w =
     (case open_read w fsrc of
        Inl e \<Rightarrow> Inl (e, tmpl, w)
      | Inr (text, w1) \<Rightarrow>
          (let source_code = readlines text in
           if source_code \<noteq> [] then
             (case add_last_content tmpl
                     (''\<newline><'' @ fsrc @ ''>\<newline>'' @ concat source_code @
                      ''</'' @ fsrc @ ''>\<newline>'') of
                Inl e \<Rightarrow> Inl (e, tmpl, w1)
              | Inr tmpl1 \<Rightarrow> inspect_loop rest tmpl1 w1)
           else inspect_loop rest tmpl w1))"

text \<open>Lines 223-253: the conversation of an inspection.\<close>

definition inspect_template :: "string list \<Rightarrow> string \<Rightarrow> world \<Rightarrow> step" where
  "inspect_template filelist query_prompt w =
     (case add_last_content [ [(''role'', ''user''), (''content'', [])] ] preamble of
        Inl e \<Rightarrow> Inl (e, [], w)
      | Inr tmpl0 \<Rightarrow>
     (case inspect_loop filelist tmpl0 w of
        Inl x \<Rightarrow> Inl x
      | Inr (tmpl1, w1) \<Rightarrow>
     (case add_last_content tmpl1
             (''\<newline><query>\<newline>'' @ query_prompt @ ''\<newline></query>\<newline>'') of
        Inl e \<Rightarrow> Inl (e, tmpl1, w1)
      | Inr tmpl2 \<Rightarrow> Inr (tmpl2, w1))))"

text \<open>Lines 202-261. The answer of the backend is printed and dropped.\<close>

definition prompt_inspect ::
    "env \<Rightarrow> string list \<Rightarrow> string \<Rightarrow> string option \<Rightarrow> bool \<Rightarrow> world \<Rightarrow> error \<times> world + world" where
  "prompt_inspect E filelist query_prompt model save_prompts w =
     (case select_model w model of
        Inl e \<Rightarrow> Inl (e, w)
      | Inr neural_model \<Rightarrow>
     (case inspect_template filelist query_prompt w of
        Inl (e, tmpl, w1) \<Rightarrow> Inl (e, w1)
      | Inr (chat_template, w1) \<Rightarrow>
     (case (if save_prompts then
              (case open_write w1 ''scribe.json'' of
                 Inl e \<Rightarrow> Inl (e, w1)
               | Inr w2 \<Rightarrow> Inr (close_write w2 ''scribe.json'' (json_dump E chat_template)))
            else Inr w1) of
        Inl x \<Rightarrow> Inl x
      | Inr w3 \<Rightarrow>
     (case neural_model of
        None \<Rightarrow> Inr w3
      | Some nm \<Rightarrow>
          (let w4 = w3\<lparr>log := log w3 @ [Chat nm chat_template]\<rparr> in
           case chat E nm chat_template of
             Inl e \<Rightarrow> Inl (e, w4)
           | Inr result \<Rightarrow> Inr w4)))))"

section \<open>What the specification says, in its own words\<close>

text \<open>
  A line is dropped as a comment iff, trimmed and lower-cased, it starts with one of the
  markers and does not start with the exception token.
\<close>

definition drops_as_comment :: "string \<Rightarrow> bool" where
  "drops_as_comment line =
     ((\<exists>m \<in> {''c'', ''!!'', ''!''}. prefix m (lower (strip line))) \<and>
      \<not> prefix ''complex'' (lower (strip line)))"

text \<open>
  A tagged span is present in a text; a text is the interior of the first span: no span
  starts further left, and no span starting at the same place has a shorter interior.
\<close>

definition has_span :: "string \<Rightarrow> string \<Rightarrow> string \<Rightarrow> bool" where
  "has_span opn close s = (\<exists>pre mid post. s = pre @ opn @ mid @ close @ post)"

definition first_span :: "string \<Rightarrow> string \<Rightarrow> string \<Rightarrow> string \<Rightarrow> bool" where
  "first_span opn close s g =
     (\<exists>pre post. s = pre @ opn @ g @ close @ post \<and>
        (\<forall>pre' g' post'. s = pre' @ opn @ g' @ close @ post' \<longrightarrow>
           length pre < length pre' \<or> (length pre = length pre' \<and> length g \<le> length g')))"

text \<open>
  A selector equals the reserved provider name when case is ignored: letter by letter it
  is \<open>openai\<close>, each letter small or capital.
\<close>

definition is_openai :: "string \<Rightarrow> bool" where
  "is_openai m =
     list_all2 (\<lambda>c l. c = l \<or> (c, l) \<in> set (zip ''ABCDEFGHIJKLMNOPQRSTUVWXYZ''
                                                  ''abcdefghijklmnopqrstuvwxyz''))
       m ''openai''"

text \<open>The texts of a prompt: every value of every message of the conversation.\<close>

definition prompt_texts :: "message list \<Rightarrow> string list" where
  "prompt_texts tmpl = concat (map (map snd) tmpl)"

section \<open>Closed forms\<close>

text \<open>
  The template with the content of its last message replaced; the blocks that lines 151-153
  and 163-165 append for a source text and a draft text; the exception of a failed
  \<open>open\<close> for reading; the draft block of a unit, empty when there is no draft file; the
  files a unit opens for reading while its prompt is built.
\<close>

definition with_content :: "message list \<Rightarrow> string \<Rightarrow> message list" where
  "with_content tmpl c = butlast tmpl @ [AList.update ''content'' c (last tmpl)]"

definition source_block :: "string \<Rightarrow> string" where
  "source_block src =
     (if source_loop (readlines src) [] = [] then []
      else ''\<newline><source>\<newline>'' @ concat (source_loop (readlines src) []) @ ''</source>'')"

definition draft_block :: "string \<Rightarrow> string" where
  "draft_block d =
     (if d = [] then [] else ''\<newline>\<newline><draft>\<newline>'' @ d @ ''</draft>'')"

definition read_error :: "world \<Rightarrow> string \<Rightarrow> error" where
  "read_error w p = (if p \<in> dirs w then IsADirectoryError p else FileNotFoundError p)"

definition draft_part :: "world \<Rightarrow> tunit \<Rightarrow> string" where
  "draft_part w u = (case files w (cdraft u) of None \<Rightarrow> [] | Some d \<Rightarrow> draft_block d)"

definition prompt_reads :: "world \<Rightarrow> tunit \<Rightarrow> event list" where
  "prompt_reads w u =
     OpenRead (fsource u) # (if isfile w (cdraft u) then [OpenRead (cdraft u)] else [])"

text \<open>
  The block that lines 249-251 append for a file, the part a file contributes to the
  inspection prompt (nothing when it is empty), and the block of line 253 for the query.
\<close>

definition file_block :: "string \<Rightarrow> string \<Rightarrow> string" where
  "file_block p body = ''\<newline><'' @ p @ ''>\<newline>'' @ body @ ''</'' @ p @ ''>\<newline>''"

definition file_part :: "world \<Rightarrow> string \<Rightarrow> string" where
  "file_part w p =
     (case files w p of None \<Rightarrow> [] | Some body \<Rightarrow> if body = [] then [] else file_block p body)"

definition query_block :: "string \<Rightarrow> string" where
  "query_block q = ''\<newline><query>\<newline>'' @ q @ ''\<newline></query>\<newline>''"

section \<open>A small world to run the program in\<close>

definition ex_tmpl :: "message list" where
  "ex_tmpl = [ [(''role'', ''user''), (''content'', ''Translate.'')] ]"

definition ex_unit :: tunit where
  "ex_unit = \<lparr>fsource = ''a.f'', csource = ''a.c'', finterface = ''a.h'',
              cdraft = ''a.draft'', promptfile = ''a.json''\<rparr>"

definition ex_world :: world where
  "ex_world = \<lparr>files = [''seed.toml'' \<mapsto> ''seed'', ''a.f'' \<mapsto> ''x = 1\<newline>''],
               dirs = {''ckpt''}, write_errors = Map.empty, log = []\<rparr>"

text \<open>The backend of the example answers every conversation with \<open>r\<close>.\<close>

definition ex_env :: "error + string \<Rightarrow> env" where
  "ex_env r = \<lparr>toml_chat = (\<lambda>text. Inr ex_tmpl), json_dump = (\<lambda>t. ''dump''),
               chat = (\<lambda>nm t. r)\<rparr>"

definition ex_mapping :: "string list list" where
  "ex_mapping = [ [''a.f''], [''a.c''], [''a.h''], [''a.draft''], [''a.json''] ]"

definition ex_inspect_world :: world where
  "ex_inspect_world =
     \<lparr>files = [''a.f'' \<mapsto> ''sub a\<newline>end\<newline>'', ''b.f'' \<mapsto> ''sub b\<newline>end\<newline>''],
      dirs = {}, write_errors = Map.empty, log = []\<rparr>"

section \<open>Text: basic facts\<close>

lemma startswith_prefix: "startswith s p = prefix p s"
  by (induction s p rule: startswith.induct) auto

lemma concat_readlines: "concat (readlines s) = s"
  by (induction s) (auto split: list.splits)

lemma readlines_Nil: "readlines s = [] \<longleftrightarrow> s = []"
  by (induction s) (auto split: list.splits)

lemmas text_defs =
  startswith_any_def lower_def strip_def isspace_def lower_char_def upper_table_def
  lower_table_def

section \<open>The comment filter\<close>

lemma source_loop_filter:
  "source_loop ls acc = acc @ filter (\<lambda>l. \<not> drops_as_comment l) ls"
  by (induction ls arbitrary: acc)
     (auto simp: drops_as_comment_def startswith_any_def startswith_prefix Let_def)

text \<open>
  Claim C1, as stated, at its own example: of the lines \<open>C note\<close>, \<open>complex z\<close>,
  \<open>! more\<close>, \<open>code(1)\<close> the ingested block is not \<open>complex z\<close> followed by
  \<open>code(1)\<close>.
\<close>

theorem C1_example_counterexample:
  "concat (source_loop [''C note\<newline>'', ''complex z\<newline>'', ''! more\<newline>'',
                        ''code(1)\<newline>''] [])
     \<noteq> ''complex z\<newline>code(1)\<newline>''"
  by code_simp

text \<open>
  Claim C1, amended: the loop over the lines keeps, in their order, exactly the lines that
  are not dropped as comments, and a line is dropped iff, trimmed and lower-cased, it starts
  with \<open>c\<close>, \<open>!!\<close> or \<open>!\<close> and does not start with \<open>complex\<close>. Of the lines
  \<open>C note\<close>, \<open>complex z\<close>, \<open>! more\<close>, \<open>code(1)\<close> only \<open>complex z\<close> is kept:
  \<open>code(1)\<close> starts with the marker \<open>c\<close>.
\<close>

theorem C1_comment_filter:
  "source_loop ls [] = filter (\<lambda>l. \<not> drops_as_comment l) ls \<and>
   concat (source_loop [''C note\<newline>'', ''complex z\<newline>'', ''! more\<newline>'',
                        ''code(1)\<newline>''] []) = ''complex z\<newline>''"
proof
  show "source_loop ls [] = filter (\<lambda>l. \<not> drops_as_comment l) ls"
    by (simp add: source_loop_filter)
  show "concat (source_loop [''C note\<newline>'', ''complex z\<newline>'', ''! more\<newline>'',
                        ''code(1)\<newline>''] []) = ''complex z\<newline>''"
    by code_simp
qed

theorem C1_comment_filter_witness:
  "drops_as_comment ''  Call f(x)\<newline>'' \<and> \<not> drops_as_comment ''Complex z\<newline>'' \<and>
   source_loop [''  Call f(x)\<newline>'', ''Complex z\<newline>''] [] = [''Complex z\<newline>'']"
proof -
  have d: "drops_as_comment ''  Call f(x)\<newline>''"
    by code_simp
  have k: "\<not> drops_as_comment ''Complex z\<newline>''"
    by code_simp
  from C1_comment_filter [of "[''  Call f(x)\<newline>'', ''Complex z\<newline>'']"]
  have "source_loop [''  Call f(x)\<newline>'', ''Complex z\<newline>''] [] =
          filter (\<lambda>l. \<not> drops_as_comment l) [''  Call f(x)\<newline>'', ''Complex z\<newline>'']"
    by (rule conjunct1)
  with d k show ?thesis by simp
qed

section \<open>Tagged spans: what the search returns\<close>

lemma prefix_append_drop: "prefix (a @ b) s \<longleftrightarrow> prefix a s \<and> prefix b (drop (length a) s)"
  by (auto simp: prefix_def)

lemma prefix_Cons_split:
  "(\<exists>g. prefix (g @ t) (c # cs)) \<longleftrightarrow> prefix t (c # cs) \<or> (\<exists>g. prefix (g @ t) cs)"
proof
  assume "\<exists>g. prefix (g @ t) (c # cs)"
  then obtain g where g: "prefix (g @ t) (c # cs)" by blast
  show "prefix t (c # cs) \<or> (\<exists>g. prefix (g @ t) cs)"
  proof (cases g)
    case Nil
    with g show ?thesis by simp
  next
    case (Cons a g')
    with g have "prefix (g' @ t) cs" by simp
    then show ?thesis by blast
  qed
next
  assume "prefix t (c # cs) \<or> (\<exists>g. prefix (g @ t) cs)"
  then show "\<exists>g. prefix (g @ t) (c # cs)"
  proof
    assume "prefix t (c # cs)"
    then have "prefix ([] @ t) (c # cs)" by simp
    then show ?thesis by blast
  next
    assume "\<exists>g. prefix (g @ t) cs"
    then obtain g where "prefix (g @ t) cs" by blast
    then have "prefix ((c # g) @ t) (c # cs)" by simp
    then show ?thesis by blast
  qed
qed

lemma lazy_group_None: "lazy_group close s = None \<longleftrightarrow> \<not> (\<exists>g. prefix (g @ close) s)"
proof (induction s)
  case Nil
  then show ?case by simp
next
  case (Cons c cs)
  then show ?case
    unfolding prefix_Cons_split by (simp add: startswith_prefix del: startswith.simps)
qed

lemma lazy_group_Some:
  "lazy_group close s = Some g \<Longrightarrow>
     prefix (g @ close) s \<and> (\<forall>g'. prefix (g' @ close) s \<longrightarrow> length g \<le> length g')"
proof (induction s arbitrary: g)
  case Nil
  then show ?case by (simp split: if_splits)
next
  case (Cons c cs)
  show ?case
  proof (cases "prefix close (c # cs)")
    case True
    with Cons.prems have "g = []" by (simp add: startswith_prefix del: startswith.simps)
    with True show ?thesis by simp
  next
    case False
    with Cons.prems obtain g0 where g0: "lazy_group close cs = Some g0" and g: "g = c # g0"
      by (auto simp: startswith_prefix simp del: startswith.simps)
    from Cons.IH[OF g0] have p: "prefix (g0 @ close) cs"
      and m: "\<And>g'. prefix (g' @ close) cs \<Longrightarrow> length g0 \<le> length g'" by blast+
    have "length g \<le> length g'" if a: "prefix (g' @ close) (c # cs)" for g'
    proof (cases g')
      case Nil
      with a False show ?thesis by simp
    next
      case (Cons x g'')
      with a have "prefix (g'' @ close) cs" by simp
      from m[OF this] g Cons show ?thesis by simp
    qed
    with p g show ?thesis by simp
  qed
qed

lemma match_at_None:
  "match_at opn close s = None \<longleftrightarrow> \<not> (\<exists>g. prefix (opn @ g @ close) s)"
  by (simp add: match_at_def startswith_prefix lazy_group_None prefix_append_drop)

lemma match_at_Some:
  "match_at opn close s = Some g \<Longrightarrow>
     prefix (opn @ g @ close) s \<and> (\<forall>g'. prefix (opn @ g' @ close) s \<longrightarrow> length g \<le> length g')"
  by (auto simp: match_at_def startswith_prefix prefix_append_drop split: if_splits dest: lazy_group_Some)

lemma re_search_None:
  "re_search opn close s = None \<longleftrightarrow> \<not> (\<exists>pre g. prefix (pre @ opn @ g @ close) s)"
proof (induction s)
  case Nil
  have "(\<exists>pre g. prefix (pre @ opn @ g @ close) []) \<longleftrightarrow> (\<exists>g. prefix (opn @ g @ close) [])"
    by auto
  then show ?case by (simp add: match_at_None del: prefix_Nil append_is_Nil_conv)
next
  case (Cons c cs)
  have "(\<exists>pre g. prefix (pre @ opn @ g @ close) (c # cs)) \<longleftrightarrow>
          (\<exists>g. prefix (opn @ g @ close) (c # cs)) \<or> (\<exists>pre g. prefix (pre @ opn @ g @ close) cs)"
    using prefix_Cons_split[of _ c cs] by blast
  moreover have "re_search opn close (c # cs) = None \<longleftrightarrow>
      match_at opn close (c # cs) = None \<and> re_search opn close cs = None"
    by (simp split: option.splits)
  ultimately show ?case
    using Cons by (simp only: match_at_None) blast
qed

lemma re_search_Some:
  "re_search opn close s = Some g \<Longrightarrow>
     \<exists>pre. prefix (pre @ opn @ g @ close) s \<and>
       (\<forall>pre' g'. prefix (pre' @ opn @ g' @ close) s \<longrightarrow>
          length pre < length pre' \<or> (length pre = length pre' \<and> length g \<le> length g'))"
proof (induction s)
  case Nil
  then have "match_at opn close [] = Some g" by simp
  from match_at_Some[OF this] show ?case
    by (intro exI[of _ "[]"]) auto
next
  case (Cons c cs)
  show ?case
  proof (cases "match_at opn close (c # cs)")
    case (Some g0)
    with Cons.prems have "match_at opn close (c # cs) = Some g" by simp
    from match_at_Some[OF this] show ?thesis
      by (intro exI[of _ "[]"]) auto
  next
    case None
    with Cons.prems have "re_search opn close cs = Some g" by simp
    from Cons.IH[OF this] obtain pre where e: "prefix (pre @ opn @ g @ close) cs"
      and m: "\<And>pre' g'. prefix (pre' @ opn @ g' @ close) cs \<Longrightarrow>
           length pre < length pre' \<or> (length pre = length pre' \<and> length g \<le> length g')"
      by blast
    have "length (c # pre) < length pre' \<or> (length (c # pre) = length pre' \<and> length g \<le> length g')"
      if a: "prefix (pre' @ opn @ g' @ close) (c # cs)" for pre' g'
    proof (cases pre')
      case Nil
      with a None show ?thesis by (auto simp: match_at_None)
    next
      case (Cons x pre'')
      with a have "prefix (pre'' @ opn @ g' @ close) cs" by simp
      from m[OF this] Cons show ?thesis by auto
    qed
    moreover from e have "prefix ((c # pre) @ opn @ g @ close) (c # cs)" by simp
    ultimately show ?thesis by blast
  qed
qed

lemma has_span_prefix: "has_span opn close s \<longleftrightarrow> (\<exists>pre g. prefix (pre @ opn @ g @ close) s)"
  unfolding has_span_def prefix_def by (metis append.assoc)

lemma first_span_prefix:
  "first_span opn close s g \<longleftrightarrow>
     (\<exists>pre. prefix (pre @ opn @ g @ close) s \<and>
       (\<forall>pre' g'. prefix (pre' @ opn @ g' @ close) s \<longrightarrow>
          length pre < length pre' \<or> (length pre = length pre' \<and> length g \<le> length g')))"
  unfolding first_span_def prefix_def by (simp only: append.assoc ex_simps[symmetric] all_simps[symmetric]) blast

lemma first_span_unique:
  "first_span opn close s g \<Longrightarrow> first_span opn close s g' \<Longrightarrow> g = g'"
proof -
  assume a: "first_span opn close s g" and b: "first_span opn close s g'"
  from a obtain pre post where e: "s = pre @ opn @ g @ close @ post"
    and m: "\<And>p x q. s = p @ opn @ x @ close @ q \<Longrightarrow>
           length pre < length p \<or> (length pre = length p \<and> length g \<le> length x)"
    unfolding first_span_def by blast
  from b obtain pre' post' where e': "s = pre' @ opn @ g' @ close @ post'"
    and m': "\<And>p x q. s = p @ opn @ x @ close @ q \<Longrightarrow>
           length pre' < length p \<or> (length pre' = length p \<and> length g' \<le> length x)"
    unfolding first_span_def by blast
  from m[OF e'] m'[OF e] have l: "length pre = length pre'" "length g = length g'" by auto
  from e e' l(1) have "opn @ g @ close @ post = opn @ g' @ close @ post'" by auto
  with l(2) show "g = g'" by auto
qed

lemma first_span_has_span: "first_span opn close s g \<Longrightarrow> has_span opn close s"
  unfolding first_span_def has_span_def by blast

lemma re_search_first_span: "re_search opn close s = Some g \<Longrightarrow> first_span opn close s g"
  by (simp only: first_span_prefix re_search_Some)

lemma re_search_no_span: "re_search opn close s = None \<longleftrightarrow> \<not> has_span opn close s"
  by (simp only: has_span_prefix re_search_None)

lemma primary_text_cases:
  "(\<not> has_span ''<csource>'' ''</csource>'' result \<and> primary_text result = result) \<or>
   (has_span ''<csource>'' ''</csource>'' result \<and>
    first_span ''<csource>'' ''</csource>'' result (primary_text result))"
proof (cases "re_search ''<csource>'' ''</csource>'' result")
  case None
  then show ?thesis by (simp add: primary_text_def re_search_no_span [symmetric])
next
  case (Some g)
  from re_search_first_span[OF Some] first_span_has_span[OF re_search_first_span[OF Some] ] Some
  show ?thesis by (simp add: primary_text_def)
qed

lemma secondary_text_None: "secondary_text result = None \<longleftrightarrow> \<not> has_span ''<fsource>'' ''</fsource>'' result"
  by (simp add: secondary_text_def re_search_no_span)

section \<open>The template and the steps of a unit\<close>

lemma with_content_twice: "with_content (with_content t x) y = with_content t y"
  by (simp add: with_content_def AList.update_last)

lemma last_content_with_content: "last_content (with_content t x) = Inr x"
  by (simp add: last_content_def with_content_def AList.update_conv')

lemma last_content_InrD: "last_content t = Inr c \<Longrightarrow> t \<noteq> [] \<and> map_of (last t) ''content'' = Some c"
  by (auto simp: last_content_def split: if_splits option.splits)

lemma with_content_same: "last_content t = Inr c \<Longrightarrow> with_content t c = t"
  by (auto simp: with_content_def AList.update_triv dest!: last_content_InrD)

lemma with_content_not_Nil: "with_content t x \<noteq> []"
  by (simp add: with_content_def)

lemma set_last_content_eq:
  "set_last_content t x = (if t = [] then Inl IndexError else Inr (with_content t x))"
  by (simp add: set_last_content_def with_content_def)

lemma add_last_content_eq:
  "last_content t = Inr c \<Longrightarrow> add_last_content t s = Inr (with_content t (c @ s))"
  by (auto simp: add_last_content_def set_last_content_eq dest: last_content_InrD)

lemma open_read_eq:
  "open_read w p = (case files w p of Some text \<Rightarrow> Inr (text, w\<lparr>log := log w @ [OpenRead p]\<rparr>)
                    | None \<Rightarrow> Inl (read_error w p))"
  by (simp add: open_read_def read_error_def split: option.splits)

lemma inject_source_eq:
  assumes "last_content tmpl = Inr c"
  shows "inject_source tmpl u w =
     (case files w (fsource u) of
        None \<Rightarrow> Inl (read_error w (fsource u), tmpl, w)
      | Some src \<Rightarrow> Inr (with_content tmpl (c @ source_block src),
                        w\<lparr>log := log w @ [OpenRead (fsource u)]\<rparr>))"
  using assms
  by (auto simp: inject_source_def open_read_eq source_block_def add_last_content_eq
        with_content_same Let_def split: option.splits)

lemma inject_draft_eq:
  assumes "last_content tmpl = Inr c"
  shows "inject_draft tmpl u w =
     (case files w (cdraft u) of
        None \<Rightarrow> Inr (tmpl, w)
      | Some d \<Rightarrow> Inr (with_content tmpl (c @ draft_block d),
                      w\<lparr>log := log w @ [OpenRead (cdraft u)]\<rparr>))"
  using assms
  by (auto simp: inject_draft_def isfile_def open_read_eq draft_block_def add_last_content_eq
        with_content_same Let_def readlines_Nil concat_readlines split: option.splits)

lemma build_prompt_eq:
  assumes "last_content tmpl = Inr c"
  shows "build_prompt tmpl u w =
     (case files w (fsource u) of
        None \<Rightarrow> Inl (read_error w (fsource u), tmpl, w)
      | Some src \<Rightarrow> Inr (with_content tmpl (c @ source_block src @ draft_part w u),
                        w\<lparr>log := log w @ prompt_reads w u\<rparr>))"
  using assms
  by (auto simp: build_prompt_def inject_source_eq inject_draft_eq last_content_with_content
        with_content_twice with_content_same draft_part_def prompt_reads_def isfile_def
        split: option.splits)

lemma translate_unit_restores:
  assumes "translate_unit E nm sp tmpl u w = Inr (tmpl', w')"
  shows "tmpl' = tmpl"
proof (cases "\<not> isfile w (csource u) \<or> sp")
  case False
  with assms show ?thesis by (simp add: translate_unit_def)
next
  case True
  with assms obtain c where c: "last_content tmpl = Inr c"
    by (cases "last_content tmpl") (auto simp: translate_unit_def)
  from assms True c obtain t2 w2 where b: "build_prompt tmpl u w = Inr (t2, w2)"
    by (cases "build_prompt tmpl u w") (auto simp: translate_unit_def)
  then obtain x where t2: "t2 = with_content tmpl x"
    by (auto simp: build_prompt_eq[OF c] split: option.splits)
  from assms True c b have "set_last_content t2 c = Inr tmpl'"
    by (auto simp: translate_unit_def split: sum.splits)
  then show ?thesis
    by (simp add: t2 set_last_content_eq with_content_not_Nil with_content_twice with_content_same[OF c])
qed

lemma translate_units_restores:
  "translate_units E nm sp tmpl us w = Inr (tmpl', w') \<Longrightarrow> tmpl' = tmpl"
proof (induction us arbitrary: tmpl w)
  case Nil
  then show ?case by simp
next
  case (Cons u us)
  then show ?case
    by (auto split: sum.splits dest!: translate_unit_restores)
qed

lemma translate_units_append:
  "translate_units E nm sp tmpl (us1 @ us2) w =
     (case translate_units E nm sp tmpl us1 w of
        Inl x \<Rightarrow> Inl x
      | Inr (t1, w1) \<Rightarrow> translate_units E nm sp tmpl us2 w1)"
proof (induction us1 arbitrary: w)
  case Nil
  then show ?case by simp
next
  case (Cons u us1)
  show ?case
  proof (cases "translate_unit E nm sp tmpl u w")
    case (Inl x)
    then show ?thesis by simp
  next
    case (Inr p)
    obtain t1 w1 where p: "p = (t1, w1)" by (cases p)
    with Inr have "t1 = tmpl" by (auto dest: translate_unit_restores)
    with Inr p Cons.IH[of w1] show ?thesis by simp
  qed
qed

lemma isfile_log_update [simp]: "isfile (w\<lparr>log := l\<rparr>) p = isfile w p"
  by (simp add: isfile_def)

lemma open_write_InrD:
  "open_write w p = Inr w1 \<Longrightarrow>
     p \<notin> dirs w \<and> w1 = w\<lparr>files := (files w)(p \<mapsto> []), log := log w @ [OpenWrite p]\<rparr>"
  by (auto simp: open_write_def split: if_splits option.splits)

lemma save_prompt_InrD:
  "save_prompt E sp tmpl u w = Inr w' \<Longrightarrow>
     dirs w' = dirs w \<and>
     log w' = log w @ (if sp then [OpenWrite (promptfile u)] else []) \<and>
     (\<forall>p. isfile w p \<longrightarrow> isfile w' p)"
  by (auto simp: save_prompt_def close_write_def isfile_def split: if_splits sum.splits
        dest!: open_write_InrD)

lemma write_artifacts_InrD:
  assumes "write_artifacts result u w = Inr w'"
  shows "dirs w' = dirs w"
    and "log w' = log w @ [OpenWrite (csource u), OpenWrite (finterface u)]"
    and "isfile w p \<Longrightarrow> isfile w' p"
    and "isfile w' (csource u)"
    and "csource u \<noteq> finterface u \<Longrightarrow> files w' (csource u) = Some (primary_text result)"
    and "csource u \<noteq> finterface u \<Longrightarrow>
           files w' (finterface u) =
             Some (case secondary_text result of Some g \<Rightarrow> g | None \<Rightarrow> [])"
    and "p \<noteq> csource u \<Longrightarrow> p \<noteq> finterface u \<Longrightarrow> files w' p = files w p"
  using assms
  by (auto simp: write_artifacts_def close_write_def isfile_def Let_def
        split: sum.splits dest!: open_write_InrD)


lemma generate_None: "generate E None tmpl u w = Inr w"
  by (simp add: generate_def)

lemma generate_Some:
  "generate E (Some nm) tmpl u w =
     (case chat E nm tmpl of
        Inl e \<Rightarrow> Inl (e, w\<lparr>log := log w @ [Chat nm tmpl]\<rparr>)
      | Inr result \<Rightarrow> write_artifacts result u (w\<lparr>log := log w @ [Chat nm tmpl]\<rparr>))"
  by (simp add: generate_def Let_def)

lemma generate_InrD:
  assumes "generate E nm tmpl u w = Inr w'"
  shows "isfile w p \<Longrightarrow> isfile w' p"
    and "nm \<noteq> None \<Longrightarrow> isfile w' (csource u)"
  using assms
  by (cases nm; auto simp: generate_None generate_Some split: sum.splits
        dest: write_artifacts_InrD(3,4))+

lemma translate_unit_skip:
  "isfile w (csource u) \<Longrightarrow> translate_unit E nm False tmpl u w = Inr (tmpl, w)"
  by (simp add: translate_unit_def)

lemma translate_unit_isfile:
  assumes "translate_unit E nm sp tmpl u w = Inr (tmpl', w')"
  shows "isfile w p \<Longrightarrow> isfile w' p"
    and "nm \<noteq> None \<Longrightarrow> isfile w' (csource u)"
proof -
  have "(isfile w p \<longrightarrow> isfile w' p) \<and> (nm \<noteq> None \<longrightarrow> isfile w' (csource u))"
  proof (cases "\<not> isfile w (csource u) \<or> sp")
    case False
    with assms show ?thesis by (auto simp: translate_unit_def)
  next
    case True
    with assms obtain c where c: "last_content tmpl = Inr c"
      by (cases "last_content tmpl") (auto simp: translate_unit_def)
    from assms True c obtain t2 w2 where b: "build_prompt tmpl u w = Inr (t2, w2)"
      by (cases "build_prompt tmpl u w") (auto simp: translate_unit_def)
    then have w2: "\<And>q. isfile w2 q = isfile w q"
      by (auto simp: build_prompt_eq[OF c] split: option.splits)
    from assms True c b obtain w3 where s: "save_prompt E sp t2 u w2 = Inr w3"
      by (cases "save_prompt E sp t2 u w2") (auto simp: translate_unit_def)
    from assms True c b s have g: "generate E nm t2 u w3 = Inr w'"
      by (cases "generate E nm t2 u w3") (auto simp: translate_unit_def split: sum.splits)
    from save_prompt_InrD[OF s] generate_InrD[OF g] w2 show ?thesis by blast
  qed
  then show "isfile w p \<Longrightarrow> isfile w' p" and "nm \<noteq> None \<Longrightarrow> isfile w' (csource u)"
    by blast+
qed

lemma translate_units_isfile:
  "translate_units E nm sp tmpl us w = Inr (tmpl', w') \<Longrightarrow> isfile w p \<Longrightarrow> isfile w' p"
proof (induction us arbitrary: tmpl w)
  case Nil
  then show ?case by simp
next
  case (Cons u us)
  then show ?case
    by (auto split: sum.splits dest: translate_unit_isfile(1))
qed

lemma translate_units_outputs:
  "translate_units E (Some nm) sp tmpl us w = Inr (tmpl', w') \<Longrightarrow>
     \<forall>u \<in> set us. isfile w' (csource u)"
proof (induction us arbitrary: tmpl w)
  case Nil
  then show ?case by simp
next
  case (Cons u us)
  from Cons.prems obtain t1 w1 where
    u: "translate_unit E (Some nm) sp tmpl u w = Inr (t1, w1)" and
    r: "translate_units E (Some nm) sp t1 us w1 = Inr (tmpl', w')"
    by (auto split: sum.splits)
  from translate_unit_isfile(2)[OF u] have "isfile w1 (csource u)" by simp
  with translate_units_isfile[OF r] have "isfile w' (csource u)" by simp
  with Cons.IH[OF r] show ?case by simp
qed

lemma translate_units_all_skipped:
  "\<forall>u \<in> set us. isfile w (csource u) \<Longrightarrow> translate_units E nm False tmpl us w = Inr (tmpl, w)"
  by (induction us) (simp_all add: translate_unit_skip)

lemma translate_unit_body:
  assumes "\<not> isfile w (csource u) \<or> sp"
    and "translate_unit E nm sp tmpl u w = Inr (tmpl', w')"
  shows "\<exists>c src t2 w3.
    last_content tmpl = Inr c \<and>
    files w (fsource u) = Some src \<and>
    t2 = with_content tmpl (c @ source_block src @ draft_part w u) \<and>
    save_prompt E sp t2 u (w\<lparr>log := log w @ prompt_reads w u\<rparr>) = Inr w3 \<and>
    generate E nm t2 u w3 = Inr w'"
proof -
  from assms obtain c where c: "last_content tmpl = Inr c"
    by (cases "last_content tmpl") (auto simp: translate_unit_def)
  from assms c obtain t2 w2 where b: "build_prompt tmpl u w = Inr (t2, w2)"
    by (cases "build_prompt tmpl u w") (auto simp: translate_unit_def)
  then obtain src where src: "files w (fsource u) = Some src"
    and t2: "t2 = with_content tmpl (c @ source_block src @ draft_part w u)"
    and w2: "w2 = w\<lparr>log := log w @ prompt_reads w u\<rparr>"
    by (auto simp: build_prompt_eq[OF c] split: option.splits)
  from assms c b obtain w3 where s: "save_prompt E sp t2 u w2 = Inr w3"
    by (cases "save_prompt E sp t2 u w2") (auto simp: translate_unit_def)
  from assms c b s have g: "generate E nm t2 u w3 = Inr w'"
    by (cases "generate E nm t2 u w3") (auto simp: translate_unit_def split: sum.splits)
  from c src t2 s g w2 show ?thesis by blast
qed

lemma select_model_Some:
  "m \<noteq> [] \<Longrightarrow> select_model w (Some m) = Inr x \<Longrightarrow> \<exists>nm. x = Some nm"
  by (auto simp: select_model_def split: if_splits)

lemma units_of_ex: "units_of ex_mapping = Inr [ex_unit]"
  by (simp add: units_of_def ex_mapping_def ex_unit_def)

lemmas world_defs = ex_world_def ex_unit_def ex_env_def ex_tmpl_def

lemmas step_defs =
  translate_unit_def build_prompt_def inject_source_def inject_draft_def save_prompt_def
  generate_def write_artifacts_def open_read_def open_write_def close_write_def isfile_def
  last_content_def set_last_content_def add_last_content_def primary_text_def
  secondary_text_def match_at_def

section \<open>Extraction of the artifacts\<close>

text \<open>
  Claim C2, as stated, at a response without the secondary tags: the secondary file
  \<open>a.h\<close> is created when it did not exist, and emptied when it held \<open>old\<close>. Line 179
  opens it for writing before the response is searched.
\<close>

theorem C2_secondary_untouched_counterexample:
  "secondary_text ''int x;'' = None \<and> \<not> isfile ex_world ''a.h'' \<and>
   files (snd (projr (translate_unit (ex_env (Inr ''int x;'')) (Some OpenAIModel) False
                         ex_tmpl ex_unit ex_world))) ''a.h'' = Some [] \<and>
   files (snd (projr (translate_unit (ex_env (Inr ''int x;'')) (Some OpenAIModel) False
                         ex_tmpl ex_unit
                         (ex_world\<lparr>files := (files ex_world)(''a.h'' \<mapsto> ''old'')\<rparr>))))
         ''a.h'' = Some []"
  by code_simp

text \<open>
  Claim C2, amended: for every generated response in which the secondary tag pair is
  absent, no text is written into the secondary output artifact; the file at the unit's
  secondary output path (when it is not also the primary path) is all the same opened for
  writing, so it is created or truncated, and is left empty.
\<close>

theorem C2_secondary_file_emptied:
  assumes "\<not> has_span ''<fsource>'' ''</fsource>'' result"
    and "chat E nm tmpl = Inr result"
    and "generate E (Some nm) tmpl u w = Inr w'"
    and "csource u \<noteq> finterface u"
  shows "files w' (finterface u) = Some [] \<and> OpenWrite (finterface u) \<in> set (log w')"
proof -
  from assms(2,3)
  have w: "write_artifacts result u (w\<lparr>log := log w @ [Chat nm tmpl]\<rparr>) = Inr w'"
    by (simp add: generate_Some)
  from assms(1) have "secondary_text result = None" by (simp add: secondary_text_None)
  with write_artifacts_InrD(2,6)[OF w] assms(4) show ?thesis by simp
qed

theorem C2_secondary_file_emptied_witness:
  "\<not> has_span ''<fsource>'' ''</fsource>'' ''int x;'' \<and>
   chat (ex_env (Inr ''int x;'')) OpenAIModel ex_tmpl = Inr ''int x;'' \<and>
   csource ex_unit \<noteq> finterface ex_unit \<and>
   (\<exists>w'. generate (ex_env (Inr ''int x;'')) (Some OpenAIModel) ex_tmpl ex_unit ex_world = Inr w' \<and>
         files w' (finterface ex_unit) = Some [] \<and>
         OpenWrite (finterface ex_unit) \<in> set (log w'))"
proof -
  have h1: "\<not> has_span ''<fsource>'' ''</fsource>'' ''int x;''"
    by (simp add: secondary_text_None [symmetric] secondary_text_def match_at_def)
  have h2: "chat (ex_env (Inr ''int x;'')) OpenAIModel ex_tmpl = Inr ''int x;''"
    by (simp add: ex_env_def)
  have h4: "csource ex_unit \<noteq> finterface ex_unit"
    by (simp add: ex_unit_def)
  obtain w' where
    h3: "generate (ex_env (Inr ''int x;'')) (Some OpenAIModel) ex_tmpl ex_unit ex_world = Inr w'"
    by (simp add: world_defs step_defs)
  from C2_secondary_file_emptied [OF h1 h2 h3 h4] h1 h2 h3 h4 show ?thesis by blast
qed




text \<open>
  Claim C4, as stated, at the non-empty response \<open><csource></csource>\<close>: the extracted
  primary text is the empty string.
\<close>

theorem C4_primary_nonempty_counterexample:
  "''<csource></csource>'' \<noteq> [] \<and> primary_text ''<csource></csource>'' = []"
  by (simp add: primary_text_def match_at_def)

text \<open>
  Claim C4, amended: for every non-empty generated response, the extracted primary text is
  either the captured interior of the first primary span or the whole response; it is the
  empty string exactly when the first primary span has an empty interior, the opening tag
  standing right before the closing tag.
\<close>

theorem C4_primary_text:
  assumes "result \<noteq> []"
  shows "(primary_text result = result \<or>
          first_span ''<csource>'' ''</csource>'' result (primary_text result)) \<and>
         (primary_text result = [] \<longleftrightarrow> first_span ''<csource>'' ''</csource>'' result [])"
proof -
  from primary_text_cases[of result] show ?thesis
  proof
    assume "\<not> has_span ''<csource>'' ''</csource>'' result \<and> primary_text result = result"
    with assms show ?thesis by (auto dest: first_span_has_span)
  next
    assume a: "has_span ''<csource>'' ''</csource>'' result \<and>
      first_span ''<csource>'' ''</csource>'' result (primary_text result)"
    then have "primary_text result = [] \<longleftrightarrow> first_span ''<csource>'' ''</csource>'' result []"
      by (metis first_span_unique)
    with a show ?thesis by simp
  qed
qed

theorem C4_primary_text_witness:
  "''int x;'' \<noteq> [] \<and> primary_text ''int x;'' = ''int x;'' \<and>
   \<not> first_span ''<csource>'' ''</csource>'' ''int x;'' []"
proof -
  have n: "''int x;'' \<noteq> []" by simp
  have p: "primary_text ''int x;'' = ''int x;''"
    by (simp add: primary_text_def match_at_def)
  from C4_primary_text [OF n] p show ?thesis by simp
qed

section \<open>The template across a batch\<close>

text \<open>
  Claim C6, as stated, on the error path: the backend of the example raises; the unit ends
  with that exception and the last message of the template still carries the injected
  source block, not the captured seed \<open>Translate.\<close>. Nothing restores it: line 196 is
  not reached, and no handler surrounds the body.
\<close>

theorem C6_error_path_counterexample:
  "last_content ex_tmpl = Inr ''Translate.'' \<and>
   translate_unit (ex_env (Inl (BackendError ''timeout''))) (Some OpenAIModel) False
       ex_tmpl ex_unit ex_world =
     Inl (BackendError ''timeout'',
          [ [(''role'', ''user''),
            (''content'', ''Translate.\<newline><source>\<newline>x = 1\<newline></source>'')] ],
          ex_world\<lparr>log := [OpenRead ''a.f'',
             Chat OpenAIModel [ [(''role'', ''user''),
                (''content'', ''Translate.\<newline><source>\<newline>x = 1\<newline></source>'')] ] ]\<rparr>)"
  by (simp add: world_defs step_defs text_defs)

text \<open>
  Claim C6, amended: for every translation unit that is processed without an exception,
  the trailing seed message's content is captured before injection and restored to exactly
  its captured value before the next unit begins, and a skipped unit leaves the template
  as it is; an exception ends the batch without a restore and no further unit is processed.
  Hence the template seen at the start of every unit equals the original template: the
  batch over \<open>us1\<close> followed by \<open>us2\<close> runs \<open>us2\<close> from the original template, and
  the prompt does not grow across the batch.
\<close>

theorem C6_template_restored:
  "(translate_unit E nm sp tmpl u w = Inr (tmpl', w') \<longrightarrow> tmpl' = tmpl) \<and>
   translate_units E nm sp tmpl (us1 @ us2) w =
     (case translate_units E nm sp tmpl us1 w of
        Inl x \<Rightarrow> Inl x
      | Inr (t1, w1) \<Rightarrow> translate_units E nm sp tmpl us2 w1)"
  using translate_unit_restores [of E nm sp tmpl u w tmpl' w']
    translate_units_append [of E nm sp tmpl us1 us2 w]
  by blast

theorem C6_template_restored_witness:
  "\<exists>t' w'. translate_unit (ex_env (Inr ''int x;'')) (Some OpenAIModel) False
              ex_tmpl ex_unit ex_world = Inr (t', w') \<and> t' = ex_tmpl"
proof -
  obtain t' w' where r: "translate_unit (ex_env (Inr ''int x;'')) (Some OpenAIModel) False
              ex_tmpl ex_unit ex_world = Inr (t', w')"
    by (simp add: world_defs step_defs text_defs)
  with C6_template_restored [of "ex_env (Inr ''int x;'')" "Some OpenAIModel" False ex_tmpl
      ex_unit ex_world t' w']
  have "t' = ex_tmpl" by blast
  with r show ?thesis by blast
qed

section \<open>Running a batch again\<close>

text \<open>
  Claim C7, as stated, at a prior run without a backend: it completes and writes no
  primary artifact, and the same run made again does not skip the unit: it reads the
  source \<open>a.f\<close> once more.
\<close>

theorem C7_rerun_counterexample:
  "prompt_translate (ex_env (Inr ''int x;'')) ex_mapping ''seed.toml'' None False ex_world =
     Inr (ex_world\<lparr>log := [OpenRead ''seed.toml'', OpenRead ''a.f'']\<rparr>) \<and>
   prompt_translate (ex_env (Inr ''int x;'')) ex_mapping ''seed.toml'' None False
       (ex_world\<lparr>log := [OpenRead ''seed.toml'', OpenRead ''a.f'']\<rparr>) =
     Inr (ex_world\<lparr>log := [OpenRead ''seed.toml'', OpenRead ''a.f'',
                             OpenRead ''seed.toml'', OpenRead ''a.f'']\<rparr>)"
  by (simp add: prompt_translate_def select_model_def units_of_ex world_defs step_defs
        text_defs)

text \<open>
  Claim C7, amended: for every unit set over which a prior batch run with a backend
  configured completed successfully, every unit's primary artifact exists afterwards, and
  running the batch again with no prompt-saving requested, with whatever backend and
  template, skips every unit: the loop returns the world as it found it, so it writes no
  file, reads no source and calls no backend. The whole entry point then either fails
  while selecting the backend or loading the template, before any unit, or returns having
  opened the template file only.
\<close>

theorem C7_rerun_skips:
  assumes "prompt_translate E mapping seed_prompt (Some m) sp w = Inr w1" and "m \<noteq> []"
  shows "\<exists>us. units_of mapping = Inr us \<and>
     (\<forall>u \<in> set us. isfile w1 (csource u) \<and>
                    translate_unit E nm' False tmpl2 u w1 = Inr (tmpl2, w1)) \<and>
     translate_units E nm' False tmpl2 us w1 = Inr (tmpl2, w1) \<and>
     prompt_translate E mapping seed_prompt model' False w1 =
       (case select_model w1 model' of
          Inl e \<Rightarrow> Inl (e, w1)
        | Inr neural_model \<Rightarrow>
            (case toml_chat E (the (files w1 seed_prompt)) of
               Inl e \<Rightarrow> Inl (e, w1\<lparr>log := log w1 @ [OpenRead seed_prompt]\<rparr>)
             | Inr chat_template \<Rightarrow> Inr (w1\<lparr>log := log w1 @ [OpenRead seed_prompt]\<rparr>)))"
proof -
  from assms(1) obtain x where x: "select_model w (Some m) = Inr x"
    by (cases "select_model w (Some m)") (auto simp: prompt_translate_def)
  with assms(2) obtain nm where nm: "x = Some nm" by (auto dest: select_model_Some)
  from assms(1) x obtain body w0 where r: "open_read w seed_prompt = Inr (body, w0)"
    by (cases "open_read w seed_prompt") (auto simp: prompt_translate_def)
  then have f: "isfile w0 seed_prompt"
    by (auto simp: open_read_eq isfile_def split: option.splits)
  from assms(1) x r obtain tmpl where t: "toml_chat E body = Inr tmpl"
    by (cases "toml_chat E body") (auto simp: prompt_translate_def)
  from assms(1) x r t obtain us where us: "units_of mapping = Inr us"
    by (cases "units_of mapping") (auto simp: prompt_translate_def)
  from assms(1) x r t us nm obtain t' where
    run: "translate_units E (Some nm) sp tmpl us w0 = Inr (t', w1)"
    by (cases "translate_units E (Some nm) sp tmpl us w0")
       (auto simp: prompt_translate_def)
  from translate_units_outputs[OF run] have out: "\<forall>u \<in> set us. isfile w1 (csource u)" .
  from translate_units_isfile[OF run f] obtain body1 where
    s1: "files w1 seed_prompt = Some body1" by (auto simp: isfile_def)
  let ?w = "w1\<lparr>log := log w1 @ [OpenRead seed_prompt]\<rparr>"
  from out have "\<And>t nmo. translate_units E nmo False t us ?w = Inr (t, ?w)"
    by (intro translate_units_all_skipped) simp
  with us s1 have "prompt_translate E mapping seed_prompt model' False w1 =
       (case select_model w1 model' of
          Inl e \<Rightarrow> Inl (e, w1)
        | Inr neural_model \<Rightarrow>
            (case toml_chat E (the (files w1 seed_prompt)) of
               Inl e \<Rightarrow> Inl (e, w1\<lparr>log := log w1 @ [OpenRead seed_prompt]\<rparr>)
             | Inr chat_template \<Rightarrow> Inr (w1\<lparr>log := log w1 @ [OpenRead seed_prompt]\<rparr>)))"
    by (simp add: prompt_translate_def open_read_eq split: sum.splits)
  with us out translate_units_all_skipped[OF out] show ?thesis
    by (auto simp: translate_unit_skip)
qed

theorem C7_rerun_skips_witness:
  "''OpenAI'' \<noteq> [] \<and>
   (\<exists>w1. prompt_translate (ex_env (Inr ''int x;'')) ex_mapping ''seed.toml'' (Some ''OpenAI'')
            False ex_world = Inr w1 \<and>
         isfile w1 ''a.c'' \<and>
         translate_units (ex_env (Inr ''int x;'')) (Some OpenAIModel) False ex_tmpl [ex_unit] w1
           = Inr (ex_tmpl, w1))"
proof -
  have n: "''OpenAI'' \<noteq> []" by simp
  obtain w1 where r: "prompt_translate (ex_env (Inr ''int x;'')) ex_mapping ''seed.toml''
      (Some ''OpenAI'') False ex_world = Inr w1"
    by (simp add: prompt_translate_def select_model_def path_exists_def units_of_ex world_defs
          step_defs text_defs)
  from C7_rerun_skips [OF r n, of "Some OpenAIModel" ex_tmpl None]
  have "isfile w1 (csource ex_unit) \<and>
     translate_units (ex_env (Inr ''int x;'')) (Some OpenAIModel) False ex_tmpl [ex_unit] w1
       = Inr (ex_tmpl, w1)"
    by (auto simp: units_of_ex)
  with r n show ?thesis by (auto simp: ex_unit_def)
qed

section \<open>Prompt-saving forces a unit\<close>

text \<open>
  Claim C10: when prompt-saving is requested, a unit whose primary artifact already exists
  is processed all the same, where without prompt-saving it would be skipped. Whenever the
  unit completes, it has read its source (and its draft, if there is one) and opened its
  prompt file for writing, so the run is not free of writes; when a backend is configured
  as well, the backend was called and the primary file was opened for writing and holds
  the primary text of the new response (the two output paths being distinct).
\<close>

theorem C10_save_prompts_forces_unit:
  assumes "isfile w (csource u)"
    and "translate_unit E nm True tmpl u w = Inr (tmpl', w')"
  shows "translate_unit E nm False tmpl u w = Inr (tmpl, w) \<and>
     (\<exists>t. log w' = log w @ prompt_reads w u @ OpenWrite (promptfile u) #
              (case nm of None \<Rightarrow> []
               | Some m \<Rightarrow> [Chat m t, OpenWrite (csource u), OpenWrite (finterface u)]) \<and>
           (\<forall>m. nm = Some m \<longrightarrow>
              (\<exists>result. chat E m t = Inr result \<and>
                 (csource u \<noteq> finterface u \<longrightarrow>
                    files w' (csource u) = Some (primary_text result)))))"
proof
  from assms(1) show "translate_unit E nm False tmpl u w = Inr (tmpl, w)"
    by (rule translate_unit_skip)
next
  have "\<not> isfile w (csource u) \<or> True" by simp
  from translate_unit_body[OF this assms(2)] obtain t2 w3 where
    s: "save_prompt E True t2 u (w\<lparr>log := log w @ prompt_reads w u\<rparr>) = Inr w3" and
    g: "generate E nm t2 u w3 = Inr w'"
    by blast
  from save_prompt_InrD[OF s]
  have l3: "log w3 = log w @ prompt_reads w u @ [OpenWrite (promptfile u)]" by simp
  show "\<exists>t. log w' = log w @ prompt_reads w u @ OpenWrite (promptfile u) #
              (case nm of None \<Rightarrow> []
               | Some m \<Rightarrow> [Chat m t, OpenWrite (csource u), OpenWrite (finterface u)]) \<and>
           (\<forall>m. nm = Some m \<longrightarrow>
              (\<exists>result. chat E m t = Inr result \<and>
                 (csource u \<noteq> finterface u \<longrightarrow>
                    files w' (csource u) = Some (primary_text result))))"
  proof (cases nm)
    case None
    with g l3 show ?thesis by (simp add: generate_None)
  next
    case (Some m)
    with g obtain result where r: "chat E m t2 = Inr result"
      and wa: "write_artifacts result u (w3\<lparr>log := log w3 @ [Chat m t2]\<rparr>) = Inr w'"
      by (cases "chat E m t2") (auto simp: generate_Some)
    from write_artifacts_InrD(2,5)[OF wa] l3 r Some show ?thesis
      by (intro exI[of _ t2]) auto
  qed
qed

theorem C10_save_prompts_forces_unit_witness:
  "isfile (ex_world\<lparr>files := (files ex_world)(''a.c'' \<mapsto> ''old'')\<rparr>) (csource ex_unit) \<and>
   (\<exists>t' w'. translate_unit (ex_env (Inr ''int x;'')) (Some OpenAIModel) True ex_tmpl ex_unit
               (ex_world\<lparr>files := (files ex_world)(''a.c'' \<mapsto> ''old'')\<rparr>) = Inr (t', w') \<and>
            OpenWrite ''a.json'' \<in> set (log w') \<and> OpenWrite ''a.c'' \<in> set (log w') \<and>
            files w' ''a.c'' = Some ''int x;'')"
proof -
  let ?w = "ex_world\<lparr>files := (files ex_world)(''a.c'' \<mapsto> ''old'')\<rparr>"
  let ?E = "ex_env (Inr ''int x;'')"
  have f: "isfile ?w (csource ex_unit)"
    by (simp add: isfile_def world_defs)
  obtain t' w' where r: "translate_unit ?E (Some OpenAIModel) True ex_tmpl ex_unit ?w
      = Inr (t', w')"
    by (simp add: world_defs step_defs text_defs)
  from C10_save_prompts_forces_unit [OF f r] obtain t result where
    l: "log w' = log ?w @ prompt_reads ?w ex_unit @
          [OpenWrite (promptfile ex_unit), Chat OpenAIModel t, OpenWrite (csource ex_unit),
           OpenWrite (finterface ex_unit)]" and
    c: "chat ?E OpenAIModel t = Inr result" and
    p: "csource ex_unit \<noteq> finterface ex_unit \<longrightarrow>
          files w' (csource ex_unit) = Some (primary_text result)"
    by auto
  from c have "result = ''int x;''" by (simp add: ex_env_def)
  with p have "files w' ''a.c'' = Some ''int x;''"
    by (simp add: ex_unit_def primary_text_def match_at_def)
  moreover from l have "OpenWrite ''a.json'' \<in> set (log w') \<and> OpenWrite ''a.c'' \<in> set (log w')"
    by (simp add: ex_unit_def)
  ultimately show ?thesis using f r by blast
qed

section \<open>Selecting the backend\<close>

lemma map_eq_list_all2: "map f xs = ys \<longleftrightarrow> list_all2 (\<lambda>x y. f x = y) xs ys"
  by (induction xs arbitrary: ys) (auto simp: list_all2_Cons1)
lemma distinct_upper_table: "distinct upper_table"
  unfolding upper_table_def by simp
lemma openai_not_upper: "l \<in> set ''openai'' \<Longrightarrow> l \<notin> set upper_table"
  unfolding upper_table_def by auto
lemma length_tables: "length upper_table = length lower_table"
  unfolding upper_table_def lower_table_def by simp

lemma zip_tables:
  "zip upper_table lower_table =
     zip ''ABCDEFGHIJKLMNOPQRSTUVWXYZ'' ''abcdefghijklmnopqrstuvwxyz'' @
     zip (drop 26 upper_table) (drop 26 lower_table)"
  unfolding upper_table_def lower_table_def by simp

lemma not_latin: "l \<in> set ''openai'' \<Longrightarrow> l \<notin> set (drop 26 lower_table)"
  unfolding lower_table_def by auto

lemma lower_char_openai:
  assumes l: "l \<in> set ''openai''"
  shows "lower_char c = l \<longleftrightarrow>
     c = l \<or> (c, l) \<in> set (zip ''ABCDEFGHIJKLMNOPQRSTUVWXYZ'' ''abcdefghijklmnopqrstuvwxyz'')"
    (is "_ \<longleftrightarrow> c = l \<or> (c, l) \<in> set ?A")
proof
  assume a: "lower_char c = l"
  show "c = l \<or> (c, l) \<in> set ?A"
  proof (cases "map_of (zip upper_table lower_table) c")
    case None
    with a show ?thesis by (simp add: lower_char_def)
  next
    case (Some l')
    with a have "l' = l" by (simp add: lower_char_def)
    with Some have "(c, l) \<in> set (zip upper_table lower_table)" by (simp add: map_of_SomeD)
    then have "(c, l) \<in> set ?A \<or> (c, l) \<in> set (zip (drop 26 upper_table) (drop 26 lower_table))"
      by (simp only: zip_tables set_append Un_iff)
    moreover have "(c, l) \<notin> set (zip (drop 26 upper_table) (drop 26 lower_table))"
      using not_latin[OF l] set_zip_rightD by fastforce
    ultimately show ?thesis by blast
  qed
next
  assume "c = l \<or> (c, l) \<in> set ?A"
  then show "lower_char c = l"
  proof
    assume e: "c = l"
    from openai_not_upper[OF l] e have "c \<notin> set upper_table" by simp
    then have "map_of (zip upper_table lower_table) c = None"
      using map_of_zip_is_None[OF length_tables, of c] by blast
    with e show ?thesis by (simp add: lower_char_def)
  next
    assume "(c, l) \<in> set ?A"
    then have "(c, l) \<in> set (zip upper_table lower_table)"
      by (simp only: zip_tables set_append Un_iff simp_thms)
    moreover have "distinct (map fst (zip upper_table lower_table))"
      by (simp only: map_fst_zip[OF length_tables] distinct_upper_table)
    ultimately have "map_of (zip upper_table lower_table) c = Some l"
      by (rule map_of_is_SomeI[rotated])
    then show ?thesis by (simp add: lower_char_def)
  qed
qed

lemma lower_is_openai: "lower m = ''openai'' \<longleftrightarrow> is_openai m"
proof -
  have "lower m = ''openai'' \<longleftrightarrow> list_all2 (\<lambda>c l. lower_char c = l) m ''openai''"
    unfolding lower_def by (rule map_eq_list_all2)
  also have "\<dots> \<longleftrightarrow> is_openai m"
    unfolding is_openai_def
  proof
    assume "list_all2 (\<lambda>c l. lower_char c = l) m ''openai''"
    then show "list_all2 (\<lambda>c l. c = l \<or> (c, l) \<in> set (zip ''ABCDEFGHIJKLMNOPQRSTUVWXYZ''
                                                  ''abcdefghijklmnopqrstuvwxyz'')) m ''openai''"
      by (rule list.rel_mono_strong) (use lower_char_openai in blast)
  next
    assume "list_all2 (\<lambda>c l. c = l \<or> (c, l) \<in> set (zip ''ABCDEFGHIJKLMNOPQRSTUVWXYZ''
                                                  ''abcdefghijklmnopqrstuvwxyz'')) m ''openai''"
    then show "list_all2 (\<lambda>c l. lower_char c = l) m ''openai''"
      by (rule list.rel_mono_strong) (use lower_char_openai in blast)
  qed
  finally show ?thesis .
qed


text \<open>
  Claim C5, as stated, at the empty selector string: it names no existing path and is not
  \<open>openai\<close>, yet nothing is raised; \<open>if model:\<close> at line 106 takes it for no selector,
  no backend is built and the batch runs without one.
\<close>

theorem C5_empty_selector_counterexample:
  "\<not> path_exists ex_world [] \<and> lower [] \<noteq> ''openai'' \<and>
   select_model ex_world (Some []) = Inr None \<and>
   prompt_translate (ex_env (Inr ''int x;'')) ex_mapping ''seed.toml'' (Some []) False ex_world =
     Inr (ex_world\<lparr>log := [OpenRead ''seed.toml'', OpenRead ''a.f'']\<rparr>)"
  by (simp add: prompt_translate_def select_model_def path_exists_def lower_def units_of_ex
        world_defs step_defs text_defs)

text \<open>
  Claim C5, amended: for every non-empty backend selector string: if it resolves to an
  existing local path the local checkpoint backend is constructed; otherwise if it equals
  \<open>openai\<close>, case ignored, the hosted API backend is constructed; otherwise a
  \<open>ValueError\<close> is raised whose message is the selector followed by
  \<open> not available\<close>, and the translation and the inspection entry points both end
  with it in the world they started in: nothing was opened, no unit was processed. The
  empty selector string is taken for an absent selector: no backend is constructed, nothing
  is raised, and both entry points run as they do without a selector.
\<close>

theorem C5_backend_selection:
  assumes "m \<noteq> []"
  shows "(path_exists w m \<longrightarrow> select_model w (Some m) = Inr (Some (TFModel m))) \<and>
   (\<not> path_exists w m \<and> is_openai m \<longrightarrow> select_model w (Some m) = Inr (Some OpenAIModel)) \<and>
   (\<not> path_exists w m \<and> \<not> is_openai m \<longrightarrow>
      select_model w (Some m) = Inl (ValueError (m @ '' not available'')) \<and>
      prompt_translate E mapping seed_prompt (Some m) sp w
        = Inl (ValueError (m @ '' not available''), w) \<and>
      prompt_inspect E filelist query_prompt (Some m) sp w
        = Inl (ValueError (m @ '' not available''), w)) \<and>
   select_model w (Some []) = Inr None \<and>
   prompt_translate E mapping seed_prompt (Some []) sp w
     = prompt_translate E mapping seed_prompt None sp w \<and>
   prompt_inspect E filelist query_prompt (Some []) sp w
     = prompt_inspect E filelist query_prompt None sp w"
  using assms
  by (simp add: select_model_def prompt_translate_def prompt_inspect_def lower_is_openai)

theorem C5_backend_selection_witness:
  "''ckpt'' \<noteq> [] \<and> path_exists ex_world ''ckpt'' \<and>
   select_model ex_world (Some ''ckpt'') = Inr (Some (TFModel ''ckpt'')) \<and>
   ''OpenAI'' \<noteq> [] \<and> \<not> path_exists ex_world ''OpenAI'' \<and> is_openai ''OpenAI'' \<and>
   select_model ex_world (Some ''OpenAI'') = Inr (Some OpenAIModel) \<and>
   ''llama'' \<noteq> [] \<and> \<not> path_exists ex_world ''llama'' \<and> \<not> is_openai ''llama'' \<and>
   prompt_translate (ex_env (Inr ''int x;'')) ex_mapping ''seed.toml'' (Some ''llama'') False
       ex_world = Inl (ValueError ''llama not available'', ex_world)"
proof -
  have a: "''ckpt'' \<noteq> []" "path_exists ex_world ''ckpt''"
    by (simp_all add: path_exists_def isfile_def ex_world_def)
  have b: "''OpenAI'' \<noteq> []" "\<not> path_exists ex_world ''OpenAI''" "is_openai ''OpenAI''"
    by (simp_all add: path_exists_def isfile_def ex_world_def is_openai_def)
  have c: "''llama'' \<noteq> []" "\<not> path_exists ex_world ''llama''" "\<not> is_openai ''llama''"
    by (simp_all add: path_exists_def isfile_def ex_world_def is_openai_def)
  from C5_backend_selection [OF a(1), of ex_world] a(2)
  have 1: "select_model ex_world (Some ''ckpt'') = Inr (Some (TFModel ''ckpt''))" by blast
  from C5_backend_selection [OF b(1), of ex_world] b(2,3)
  have 2: "select_model ex_world (Some ''OpenAI'') = Inr (Some OpenAIModel)" by blast
  from C5_backend_selection [OF c(1), of ex_world "ex_env (Inr ''int x;'')" ex_mapping
      "''seed.toml''" False] c(2,3)
  have 3: "prompt_translate (ex_env (Inr ''int x;'')) ex_mapping ''seed.toml'' (Some ''llama'')
      False ex_world = Inl (ValueError ''llama not available'', ex_world)" by simp
  from a b c 1 2 3 show ?thesis by blast
qed

section \<open>The inspection prompt\<close>

lemma file_part_log [simp]: "file_part (w\<lparr>log := l\<rparr>) p = file_part w p"
  by (simp add: file_part_def)

lemma inspect_loop_eq:
  "last_content tmpl = Inr c \<Longrightarrow> \<forall>p \<in> set fl. isfile w p \<Longrightarrow>
     inspect_loop fl tmpl w =
       Inr (with_content tmpl (c @ concat (map (file_part w) fl)),
            w\<lparr>log := log w @ map OpenRead fl\<rparr>)"
proof (induction fl arbitrary: tmpl c w)
  case Nil
  then show ?case by (simp add: with_content_same)
next
  case (Cons p fl)
  from Cons.prems(2) obtain body where b: "files w p = Some body"
    by (auto simp: isfile_def)
  let ?w = "w\<lparr>log := log w @ [OpenRead p]\<rparr>"
  from Cons.prems(2) have all: "\<forall>q \<in> set fl. isfile ?w q" by simp
  show ?case
  proof (cases "body = []")
    case True
    with b Cons.IH[OF Cons.prems(1) all] show ?thesis
      by (simp add: open_read_eq file_part_def)
  next
    case False
    let ?t = "with_content tmpl (c @ file_block p body)"
    have lc: "last_content ?t = Inr (c @ file_block p body)"
      by (rule last_content_with_content)
    from False b Cons.prems(1) Cons.IH[OF lc all] show ?thesis
      by (simp add: open_read_eq file_part_def readlines_Nil concat_readlines
            add_last_content_eq file_block_def with_content_twice)
  qed
qed

lemma user_message:
  "last_content [ [(''role'', ''user''), (''content'', x)] ] = Inr x"
  "with_content [ [(''role'', ''user''), (''content'', x)] ] y = [ [(''role'', ''user''), (''content'', y)] ]"
  "add_last_content [ [(''role'', ''user''), (''content'', x)] ] s =
     Inr [ [(''role'', ''user''), (''content'', x @ s)] ]"
  by (simp_all add: last_content_def with_content_def add_last_content_def set_last_content_def)

lemma inspect_template_eq:
  assumes "\<forall>p \<in> set fl. isfile w p"
  shows "inspect_template fl q w =
     Inr ([ [(''role'', ''user''),
            (''content'', preamble @ concat (map (file_part w) fl) @ query_block q)] ],
          w\<lparr>log := log w @ map OpenRead fl\<rparr>)"
proof -
  have "inspect_loop fl [ [(''role'', ''user''), (''content'', preamble)] ] w =
      Inr ([ [(''role'', ''user''), (''content'', preamble @ concat (map (file_part w) fl))] ],
           w\<lparr>log := log w @ map OpenRead fl\<rparr>)"
    using inspect_loop_eq[OF user_message(1) assms, of preamble] by (simp only: user_message(2))
  then show ?thesis
    unfolding inspect_template_def query_block_def
    by (simp only: user_message(3) sum.case prod.case append_Nil append_assoc)
qed

text \<open>
  Claim C8, as stated, at its own example: the prompt built for the files \<open>a.f\<close> and
  \<open>b.f\<close> does not contain the text \<open><a.f>sub a\<close>...\<open></a.f>\<close> with the content
  right behind the opening tag: line 250 puts a line feed between them.
\<close>

theorem C8_block_form_counterexample:
  "inspect_template [''a.f'', ''b.f''] ''List all subroutines'' ex_inspect_world =
     Inr ([ [(''role'', ''user''),
            (''content'', preamble @
               ''\<newline><a.f>\<newline>sub a\<newline>end\<newline></a.f>\<newline>'' @
               ''\<newline><b.f>\<newline>sub b\<newline>end\<newline></b.f>\<newline>'' @
               ''\<newline><query>\<newline>List all subroutines\<newline></query>\<newline>'')] ],
          ex_inspect_world\<lparr>log := [OpenRead ''a.f'', OpenRead ''b.f'']\<rparr>) \<and>
   \<not> sublist ''<a.f>sub a\<newline>end\<newline></a.f>''
       (preamble @
               ''\<newline><a.f>\<newline>sub a\<newline>end\<newline></a.f>\<newline>'' @
               ''\<newline><b.f>\<newline>sub b\<newline>end\<newline></b.f>\<newline>'' @
               ''\<newline><query>\<newline>List all subroutines\<newline></query>\<newline>'')"
proof
  show "inspect_template [''a.f'', ''b.f''] ''List all subroutines'' ex_inspect_world =
     Inr ([ [(''role'', ''user''),
            (''content'', preamble @
               ''\<newline><a.f>\<newline>sub a\<newline>end\<newline></a.f>\<newline>'' @
               ''\<newline><b.f>\<newline>sub b\<newline>end\<newline></b.f>\<newline>'' @
               ''\<newline><query>\<newline>List all subroutines\<newline></query>\<newline>'')] ],
          ex_inspect_world\<lparr>log := [OpenRead ''a.f'', OpenRead ''b.f'']\<rparr>)"
    by (simp add: inspect_template_eq isfile_def ex_inspect_world_def file_part_def
          file_block_def query_block_def)
  show "\<not> sublist ''<a.f>sub a\<newline>end\<newline></a.f>''
       (preamble @
               ''\<newline><a.f>\<newline>sub a\<newline>end\<newline></a.f>\<newline>'' @
               ''\<newline><b.f>\<newline>sub b\<newline>end\<newline></b.f>\<newline>'' @
               ''\<newline><query>\<newline>List all subroutines\<newline></query>\<newline>'')"
    by code_simp
qed

text \<open>
  Claim C8, amended: for every list of readable input files and every query, the
  inspection prompt is one user message whose content is, in order, the fixed preamble,
  one block per non-empty input file of the exact form: line feed, \<open><PATH>\<close>, line feed,
  the file content, \<open></PATH>\<close>, line feed, with \<open>PATH\<close> the literal file path string
  (an empty file contributes nothing), and finally the query block: line feed,
  \<open><query>\<close>, line feed, the query text, line feed, \<open></query>\<close>, line feed; the files
  are opened in their order. For the files \<open>a.f\<close> and \<open>b.f\<close> of the example and the
  query \<open>List all subroutines\<close> the content is the preamble followed by the two blocks
  and the query block in that form.
\<close>

theorem C8_inspection_prompt:
  assumes "\<forall>p \<in> set filelist. isfile w p"
  shows "inspect_template filelist query_prompt w =
     Inr ([ [(''role'', ''user''),
            (''content'', preamble @ concat (map (file_part w) filelist) @
                          query_block query_prompt)] ],
          w\<lparr>log := log w @ map OpenRead filelist\<rparr>) \<and>
   inspect_template [''a.f'', ''b.f''] ''List all subroutines'' ex_inspect_world =
     Inr ([ [(''role'', ''user''),
            (''content'', preamble @
               ''\<newline><a.f>\<newline>sub a\<newline>end\<newline></a.f>\<newline>'' @
               ''\<newline><b.f>\<newline>sub b\<newline>end\<newline></b.f>\<newline>'' @
               ''\<newline><query>\<newline>List all subroutines\<newline></query>\<newline>'')] ],
          ex_inspect_world\<lparr>log := [OpenRead ''a.f'', OpenRead ''b.f'']\<rparr>)"
proof
  from assms show "inspect_template filelist query_prompt w =
     Inr ([ [(''role'', ''user''),
            (''content'', preamble @ concat (map (file_part w) filelist) @
                          query_block query_prompt)] ],
          w\<lparr>log := log w @ map OpenRead filelist\<rparr>)"
    by (rule inspect_template_eq)
  show "inspect_template [''a.f'', ''b.f''] ''List all subroutines'' ex_inspect_world =
     Inr ([ [(''role'', ''user''),
            (''content'', preamble @
               ''\<newline><a.f>\<newline>sub a\<newline>end\<newline></a.f>\<newline>'' @
               ''\<newline><b.f>\<newline>sub b\<newline>end\<newline></b.f>\<newline>'' @
               ''\<newline><query>\<newline>List all subroutines\<newline></query>\<newline>'')] ],
          ex_inspect_world\<lparr>log := [OpenRead ''a.f'', OpenRead ''b.f'']\<rparr>)"
    by (simp add: inspect_template_eq isfile_def ex_inspect_world_def file_part_def
          file_block_def query_block_def)
qed

theorem C8_inspection_prompt_witness:
  "isfile ex_inspect_world ''b.f'' \<and>
   inspect_template [''b.f''] ''Q'' ex_inspect_world =
     Inr ([ [(''role'', ''user''),
            (''content'', preamble @
               ''\<newline><b.f>\<newline>sub b\<newline>end\<newline></b.f>\<newline>'' @
               ''\<newline><query>\<newline>Q\<newline></query>\<newline>'')] ],
          ex_inspect_world\<lparr>log := [OpenRead ''b.f'']\<rparr>)"
proof -
  have f: "isfile ex_inspect_world ''b.f''"
    by (simp add: isfile_def ex_inspect_world_def)
  then have h: "\<forall>p \<in> set [''b.f'']. isfile ex_inspect_world p" by simp
  from C8_inspection_prompt [OF h, of "''Q''"]
  have "inspect_template [''b.f''] ''Q'' ex_inspect_world =
     Inr ([ [(''role'', ''user''),
            (''content'', preamble @ concat (map (file_part ex_inspect_world) [''b.f'']) @
                          query_block ''Q'')] ],
          ex_inspect_world\<lparr>log := log ex_inspect_world @ map OpenRead [''b.f'']\<rparr>)"
    by (rule conjunct1)
  with f show ?thesis
    by (simp add: ex_inspect_world_def file_part_def file_block_def query_block_def)
qed

section \<open>The draft block\<close>

lemma sublist_append_hd:
  assumes "b \<noteq> []" and "hd b \<notin> set (tl t)"
  shows "sublist t (a @ b) \<longleftrightarrow> sublist t a \<or> sublist t b"
proof -
  have "sublist t a \<or> sublist t b"
    if "t = xs1 @ xs2" "suffix xs1 a" "prefix xs2 b" for xs1 xs2
  proof (cases "xs1 = [] \<or> xs2 = []")
    case True
    with that show ?thesis by (auto dest: prefix_imp_sublist suffix_imp_sublist)
  next
    case False
    with that(3) assms(1) have "hd xs2 = hd b" by (auto simp: prefix_def)
    moreover from False that(1) have "hd xs2 \<in> set (tl t)" by (cases xs1) auto
    ultimately show ?thesis using assms(2) by simp
  qed
  then show ?thesis unfolding sublist_append by blast
qed

lemma sublist_append_last:
  assumes "a \<noteq> []" and "last a \<notin> set (butlast t)"
  shows "sublist t (a @ b) \<longleftrightarrow> sublist t a \<or> sublist t b"
proof -
  have "sublist t a \<or> sublist t b"
    if "t = xs1 @ xs2" "suffix xs1 a" "prefix xs2 b" for xs1 xs2
  proof (cases "xs1 = [] \<or> xs2 = []")
    case True
    with that show ?thesis by (auto dest: prefix_imp_sublist suffix_imp_sublist)
  next
    case False
    with that(2) assms(1) have "last xs1 = last a" by (auto simp: suffix_def)
    moreover from False that(1) have "last xs1 \<in> set (butlast t)"
      by (simp add: butlast_append)
    ultimately show ?thesis using assms(2) by simp
  qed
  then show ?thesis unfolding sublist_append by blast
qed

lemma no_draft_source_block:
  assumes "\<not> sublist ''<draft>'' body"
  shows "\<not> sublist ''<draft>'' (''\<newline><source>\<newline>'' @ body @ ''</source>'')"
proof -
  have 1: "\<not> sublist ''<draft>'' ''\<newline><source>\<newline>''" by code_simp
  have 2: "\<not> sublist ''<draft>'' ''</source>''" by code_simp
  have "sublist ''<draft>'' (body @ ''</source>'') \<longleftrightarrow>
      sublist ''<draft>'' body \<or> sublist ''<draft>'' ''</source>''"
    by (rule sublist_append_hd) simp_all
  with assms 2 have 3: "\<not> sublist ''<draft>'' (body @ ''</source>'')" by simp
  have "sublist ''<draft>'' (''\<newline><source>\<newline>'' @ (body @ ''</source>'')) \<longleftrightarrow>
      sublist ''<draft>'' ''\<newline><source>\<newline>'' \<or> sublist ''<draft>'' (body @ ''</source>'')"
    by (rule sublist_append_last) simp_all
  with 1 3 show ?thesis by simp
qed

lemma no_draft_seed_source:
  assumes "\<not> sublist ''<draft>'' seed"
    and "\<not> sublist ''<draft>'' (concat (source_loop (readlines src) []))"
  shows "\<not> sublist ''<draft>'' (seed @ source_block src)"
proof (cases "source_loop (readlines src) [] = []")
  case True
  with assms(1) show ?thesis by (simp add: source_block_def)
next
  case False
  let ?b = "''\<newline><source>\<newline>'' @ concat (source_loop (readlines src) []) @ ''</source>''"
  have "sublist ''<draft>'' (seed @ ?b) \<longleftrightarrow> sublist ''<draft>'' seed \<or> sublist ''<draft>'' ?b"
    by (rule sublist_append_hd) simp_all
  with assms(1) no_draft_source_block[OF assms(2)] False show ?thesis
    by (simp add: source_block_def)
qed

lemma snd_set_update: "snd ` set (AList.update k v al) \<subseteq> insert v (snd ` set al)"
  by (induction al) auto

lemma prompt_texts_with_content:
  assumes "tmpl \<noteq> []"
  shows "set (prompt_texts (with_content tmpl x)) \<subseteq> insert x (set (prompt_texts tmpl))"
proof -
  from assms have t: "tmpl = butlast tmpl @ [last tmpl]" by simp
  have "set (prompt_texts tmpl) = set (prompt_texts (butlast tmpl)) \<union> snd ` set (last tmpl)"
    by (subst t) (simp add: prompt_texts_def)
  moreover have "set (prompt_texts (with_content tmpl x)) =
      set (prompt_texts (butlast tmpl)) \<union> snd ` set (AList.update ''content'' x (last tmpl))"
    by (simp add: prompt_texts_def with_content_def)
  ultimately show ?thesis using snd_set_update[of "''content''" x "last tmpl"] by auto
qed

text \<open>
  Claim C9, as stated, at two units. A draft file exists and is empty: the loop at line 159
  collects no line, line 162 is false, and no \<open><draft>\<close> block is appended. No draft
  file exists, the seed has no \<open><draft>\<close> tag, and the source file holds the line
  \<open><draft>\<close>: the built prompt contains the tag, inside the source block.
\<close>

theorem C9_draft_counterexample:
  "isfile (ex_world\<lparr>files := (files ex_world)(''a.draft'' \<mapsto> [])\<rparr>) ''a.draft'' \<and>
   inject_draft ex_tmpl ex_unit (ex_world\<lparr>files := (files ex_world)(''a.draft'' \<mapsto> [])\<rparr>) =
     Inr (ex_tmpl, ex_world\<lparr>files := (files ex_world)(''a.draft'' \<mapsto> []),
                             log := [OpenRead ''a.draft'']\<rparr>) \<and>
   \<not> isfile (ex_world\<lparr>files := (files ex_world)(''a.f'' \<mapsto> ''<draft>\<newline>'')\<rparr>) ''a.draft'' \<and>
   \<not> sublist ''<draft>'' ''user'' \<and> \<not> sublist ''<draft>'' ''Translate.'' \<and>
   build_prompt ex_tmpl ex_unit (ex_world\<lparr>files := (files ex_world)(''a.f'' \<mapsto> ''<draft>\<newline>'')\<rparr>) =
     Inr ([ [(''role'', ''user''),
            (''content'', ''Translate.\<newline><source>\<newline><draft>\<newline></source>'')] ],
          ex_world\<lparr>files := (files ex_world)(''a.f'' \<mapsto> ''<draft>\<newline>''),
                    log := [OpenRead ''a.f'']\<rparr>) \<and>
   sublist ''<draft>'' ''Translate.\<newline><source>\<newline><draft>\<newline></source>''"
proof (intro conjI)
  show "isfile (ex_world\<lparr>files := (files ex_world)(''a.draft'' \<mapsto> [])\<rparr>) ''a.draft''"
    by (simp add: isfile_def)
  show "inject_draft ex_tmpl ex_unit (ex_world\<lparr>files := (files ex_world)(''a.draft'' \<mapsto> [])\<rparr>) =
     Inr (ex_tmpl, ex_world\<lparr>files := (files ex_world)(''a.draft'' \<mapsto> []),
                             log := [OpenRead ''a.draft'']\<rparr>)"
    by (simp add: world_defs step_defs)
  show "\<not> isfile (ex_world\<lparr>files := (files ex_world)(''a.f'' \<mapsto> ''<draft>\<newline>'')\<rparr>) ''a.draft''"
    by (simp add: isfile_def ex_world_def)
  show "\<not> sublist ''<draft>'' ''user''" by code_simp
  show "\<not> sublist ''<draft>'' ''Translate.''" by code_simp
  show "build_prompt ex_tmpl ex_unit (ex_world\<lparr>files := (files ex_world)(''a.f'' \<mapsto> ''<draft>\<newline>'')\<rparr>) =
     Inr ([ [(''role'', ''user''),
            (''content'', ''Translate.\<newline><source>\<newline><draft>\<newline></source>'')] ],
          ex_world\<lparr>files := (files ex_world)(''a.f'' \<mapsto> ''<draft>\<newline>''),
                    log := [OpenRead ''a.f'']\<rparr>)"
    by (simp add: world_defs step_defs text_defs)
  show "sublist ''<draft>'' ''Translate.\<newline><source>\<newline><draft>\<newline></source>''"
    by code_simp
qed

text \<open>
  Claim C9, amended: for every processed translation unit whose template has a seed
  content and whose source can be read: if a non-empty file exists at the unit's draft
  path, its whole content is appended unfiltered, as two line feeds, \<open><draft>\<close>, a line
  feed, the content and \<open></draft>\<close>, immediately after the source block; if the file at
  the draft path exists and is empty, it is read and nothing is appended, whatever the
  template and the unit; if no file exists there, draft injection is a silent no-op, no
  error is raised, and the built prompt contains no \<open><draft>\<close> tag anywhere, assuming
  that neither a text of the seed template nor the kept source lines contain one.
\<close>

theorem C9_draft_injection:
  "(last_content tmpl = Inr seed \<and> files w (fsource u) = Some src \<and>
    files w (cdraft u) = Some d \<and> d \<noteq> [] \<longrightarrow>
      build_prompt tmpl u w =
        Inr (with_content tmpl
               (seed @ source_block src @ ''\<newline>\<newline><draft>\<newline>'' @ d @ ''</draft>''),
             w\<lparr>log := log w @ [OpenRead (fsource u), OpenRead (cdraft u)]\<rparr>)) \<and>
   (\<not> isfile w (cdraft u) \<longrightarrow> inject_draft tmpl u w = Inr (tmpl, w)) \<and>
   (\<not> isfile w (cdraft u) \<and> build_prompt tmpl u w = Inr (tmpl2, w2) \<and>
    files w (fsource u) = Some src \<and>
    (\<forall>v \<in> set (prompt_texts tmpl). \<not> sublist ''<draft>'' v) \<and>
    \<not> sublist ''<draft>'' (concat (source_loop (readlines src) [])) \<longrightarrow>
      (\<forall>v \<in> set (prompt_texts tmpl2). \<not> sublist ''<draft>'' v)) \<and>
   (files w (cdraft u) = Some [] \<longrightarrow>
      inject_draft tmpl u w = Inr (tmpl, w\<lparr>log := log w @ [OpenRead (cdraft u)]\<rparr>)) \<and>
   (last_content tmpl = Inr seed \<and> files w (fsource u) = Some src \<and>
    files w (cdraft u) = Some [] \<longrightarrow>
      build_prompt tmpl u w =
        Inr (with_content tmpl (seed @ source_block src),
             w\<lparr>log := log w @ [OpenRead (fsource u), OpenRead (cdraft u)]\<rparr>))"
proof (intro conjI impI)
  assume "last_content tmpl = Inr seed \<and> files w (fsource u) = Some src \<and>
    files w (cdraft u) = Some d \<and> d \<noteq> []"
  then show "build_prompt tmpl u w =
        Inr (with_content tmpl
               (seed @ source_block src @ ''\<newline>\<newline><draft>\<newline>'' @ d @ ''</draft>''),
             w\<lparr>log := log w @ [OpenRead (fsource u), OpenRead (cdraft u)]\<rparr>)"
    by (simp add: build_prompt_eq draft_part_def draft_block_def prompt_reads_def isfile_def)
next
  assume "\<not> isfile w (cdraft u)"
  then show "inject_draft tmpl u w = Inr (tmpl, w)" by (simp add: inject_draft_def)
next
  assume a: "\<not> isfile w (cdraft u) \<and> build_prompt tmpl u w = Inr (tmpl2, w2) \<and>
    files w (fsource u) = Some src \<and>
    (\<forall>v \<in> set (prompt_texts tmpl). \<not> sublist ''<draft>'' v) \<and>
    \<not> sublist ''<draft>'' (concat (source_loop (readlines src) []))"
  show "\<forall>v \<in> set (prompt_texts tmpl2). \<not> sublist ''<draft>'' v"
  proof (cases "last_content tmpl")
    case (Inl e)
    have "tmpl2 = tmpl"
    proof (cases "source_loop (readlines src) [] = []")
      case True
      with a show ?thesis
        by (auto simp: build_prompt_def inject_source_def inject_draft_def open_read_eq Let_def)
    next
      case False
      with a Inl show ?thesis
        by (auto simp: build_prompt_def inject_source_def inject_draft_def open_read_eq Let_def
              add_last_content_def)
    qed
    with a show ?thesis by simp
  next
    case (Inr seed)
    with a have t2: "tmpl2 = with_content tmpl (seed @ source_block src)"
      by (auto simp: build_prompt_eq draft_part_def isfile_def)
    from Inr have ne: "tmpl \<noteq> []" and "map_of (last tmpl) ''content'' = Some seed"
      by (auto dest: last_content_InrD)
    then have "(''content'', seed) \<in> set (last tmpl)" by (auto dest: map_of_SomeD)
    with ne have "seed \<in> set (prompt_texts tmpl)"
      by (force simp: prompt_texts_def intro: last_in_set)
    with a have "\<not> sublist ''<draft>'' seed" by blast
    with a have "\<not> sublist ''<draft>'' (seed @ source_block src)"
      by (intro no_draft_seed_source) auto
    with a prompt_texts_with_content[OF ne, of "seed @ source_block src"] t2
    show ?thesis by auto
  qed
next
  assume "files w (cdraft u) = Some []"
  then show "inject_draft tmpl u w = Inr (tmpl, w\<lparr>log := log w @ [OpenRead (cdraft u)]\<rparr>)"
    by (simp add: inject_draft_def isfile_def open_read_def)
next
  assume "last_content tmpl = Inr seed \<and> files w (fsource u) = Some src \<and>
    files w (cdraft u) = Some []"
  then show "build_prompt tmpl u w =
        Inr (with_content tmpl (seed @ source_block src),
             w\<lparr>log := log w @ [OpenRead (fsource u), OpenRead (cdraft u)]\<rparr>)"
    by (simp add: build_prompt_eq draft_part_def draft_block_def prompt_reads_def isfile_def)
qed

theorem C9_draft_injection_witness:
  "last_content ex_tmpl = Inr ''Translate.'' \<and>
   files (ex_world\<lparr>files := (files ex_world)(''a.draft'' \<mapsto> ''int x;\<newline>'')\<rparr>) (fsource ex_unit)
     = Some ''x = 1\<newline>'' \<and>
   files (ex_world\<lparr>files := (files ex_world)(''a.draft'' \<mapsto> ''int x;\<newline>'')\<rparr>) (cdraft ex_unit)
     = Some ''int x;\<newline>'' \<and> ''int x;\<newline>'' \<noteq> [] \<and>
   build_prompt ex_tmpl ex_unit (ex_world\<lparr>files := (files ex_world)(''a.draft'' \<mapsto> ''int x;\<newline>'')\<rparr>) =
     Inr ([ [(''role'', ''user''),
            (''content'', ''Translate.\<newline><source>\<newline>x = 1\<newline></source>'' @
                          ''\<newline>\<newline><draft>\<newline>int x;\<newline></draft>'')] ],
          ex_world\<lparr>files := (files ex_world)(''a.draft'' \<mapsto> ''int x;\<newline>''),
                    log := [OpenRead ''a.f'', OpenRead ''a.draft'']\<rparr>) \<and>
   files (ex_world\<lparr>files := (files ex_world)(''a.draft'' \<mapsto> [])\<rparr>) (cdraft ex_unit) = Some [] \<and>
   inject_draft ex_tmpl ex_unit (ex_world\<lparr>files := (files ex_world)(''a.draft'' \<mapsto> [])\<rparr>) =
     Inr (ex_tmpl, ex_world\<lparr>files := (files ex_world)(''a.draft'' \<mapsto> []),
                             log := [OpenRead ''a.draft'']\<rparr>) \<and>
   \<not> isfile ex_world (cdraft ex_unit) \<and>
   inject_draft ex_tmpl ex_unit ex_world = Inr (ex_tmpl, ex_world) \<and>
   prompt_texts ex_tmpl = [''user'', ''Translate.''] \<and>
   \<not> sublist ''<draft>'' ''user'' \<and> \<not> sublist ''<draft>'' ''Translate.'' \<and>
   \<not> sublist ''<draft>'' (concat (source_loop (readlines ''x = 1\<newline>'') [])) \<and>
   build_prompt ex_tmpl ex_unit ex_world =
     Inr ([ [(''role'', ''user''),
            (''content'', ''Translate.\<newline><source>\<newline>x = 1\<newline></source>'')] ],
          ex_world\<lparr>log := [OpenRead ''a.f'']\<rparr>) \<and>
   \<not> sublist ''<draft>'' ''Translate.\<newline><source>\<newline>x = 1\<newline></source>''"
proof -
  let ?wd = "ex_world\<lparr>files := (files ex_world)(''a.draft'' \<mapsto> ''int x;\<newline>'')\<rparr>"
  have a: "last_content ex_tmpl = Inr ''Translate.'' \<and> files ?wd (fsource ex_unit)
     = Some ''x = 1\<newline>'' \<and> files ?wd (cdraft ex_unit) = Some ''int x;\<newline>'' \<and>
     ''int x;\<newline>'' \<noteq> []"
    by (simp add: last_content_def world_defs)
  have sb: "source_block ''x = 1\<newline>'' = ''\<newline><source>\<newline>x = 1\<newline></source>''"
    unfolding source_block_def by code_simp
  from C9_draft_injection [of ex_tmpl "''Translate.''" ?wd ex_unit "''x = 1\<newline>''"
      "''int x;\<newline>''"] a
  have 1: "build_prompt ex_tmpl ex_unit ?wd =
     Inr ([ [(''role'', ''user''),
            (''content'', ''Translate.\<newline><source>\<newline>x = 1\<newline></source>'' @
                          ''\<newline>\<newline><draft>\<newline>int x;\<newline></draft>'')] ],
          ex_world\<lparr>files := (files ex_world)(''a.draft'' \<mapsto> ''int x;\<newline>''),
                    log := [OpenRead ''a.f'', OpenRead ''a.draft'']\<rparr>)"
    by (simp add: sb with_content_def world_defs)
  have n: "\<not> isfile ex_world (cdraft ex_unit)"
    by (simp add: isfile_def world_defs)
  have f: "files ex_world (fsource ex_unit) = Some ''x = 1\<newline>''"
    by (simp add: world_defs)
  have pt: "prompt_texts ex_tmpl = [''user'', ''Translate.'']"
    by (simp add: prompt_texts_def ex_tmpl_def)
  have u: "\<not> sublist ''<draft>'' ''user''" and t: "\<not> sublist ''<draft>'' ''Translate.''"
    by code_simp+
  with pt have s: "\<forall>v \<in> set (prompt_texts ex_tmpl). \<not> sublist ''<draft>'' v" by simp
  have k: "\<not> sublist ''<draft>'' (concat (source_loop (readlines ''x = 1\<newline>'') []))"
    by code_simp
  let ?t2 = "[ [(''role'', ''user''),
            (''content'', ''Translate.\<newline><source>\<newline>x = 1\<newline></source>'')] ]"
  let ?w2 = "ex_world\<lparr>log := [OpenRead ''a.f'']\<rparr>"
  have b: "build_prompt ex_tmpl ex_unit ex_world = Inr (?t2, ?w2)"
    by (simp add: world_defs step_defs text_defs)
  note c = C9_draft_injection [of ex_tmpl _ ex_world ex_unit "''x = 1\<newline>''" _ ?t2 ?w2]
  from c n have 2: "inject_draft ex_tmpl ex_unit ex_world = Inr (ex_tmpl, ex_world)" by blast
  from c n b f s k have "\<forall>v \<in> set (prompt_texts ?t2). \<not> sublist ''<draft>'' v" by blast
  then have 3: "\<not> sublist ''<draft>'' ''Translate.\<newline><source>\<newline>x = 1\<newline></source>''"
    by (simp add: prompt_texts_def)
  let ?we = "ex_world\<lparr>files := (files ex_world)(''a.draft'' \<mapsto> [])\<rparr>"
  have e: "files ?we (cdraft ex_unit) = Some []"
    by (simp add: world_defs)
  from C9_draft_injection [of ex_tmpl _ ?we ex_unit] e
  have "inject_draft ex_tmpl ex_unit ?we =
      Inr (ex_tmpl, ?we\<lparr>log := log ?we @ [OpenRead (cdraft ex_unit)]\<rparr>)"
    by blast
  then have 4: "inject_draft ex_tmpl ex_unit ?we =
     Inr (ex_tmpl, ex_world\<lparr>files := (files ex_world)(''a.draft'' \<mapsto> []),
                             log := [OpenRead ''a.draft'']\<rparr>)"
    by (simp add: world_defs)
  from a 1 n 2 pt u t k b 3 e 4 show ?thesis by blast
qed

end
